theory Spec2Isabelle
  imports Main "HOL-Library.Multiset" "HOL-Library.Log_Nat"
begin

section \<open>Numbers\<close>

text \<open>
  Every number of the program is a JavaScript Number, an IEEE-754 double. A finite double
  is a rational number; \<open>round53\<close> rounds a rational to the nearest double (53 significant
  bits, ties to even), which is what a numeric literal and every \<open>+\<close> and \<open>-\<close> of the
  source do. Overflow to infinity and subnormals are left out.

  Coordinates, sizes and ids are whole numbers and are modelled as \<^typ>\<open>int\<close>; their
  sums and differences go through \<open>dadd\<close> and \<open>dsub\<close>, which round the exact result to the
  nearest double: the result is exact up to \<open>2^53\<close> in magnitude and a rounded whole number
  beyond (\<open>2^53 + 1\<close> is \<open>2^53\<close>). The power, oxygen and crew totals add at most 50 per
  module over an array of fewer than \<open>2^32\<close> modules, stay far below \<open>2^53\<close>, and are
  added exactly. The floor areas are not whole (\<open>16.8\<close>, \<open>22.4\<close>, ...), so \<open>totalArea\<close> is
  a sum of doubles that rounds at every step (\<open>fadd\<close>).
\<close>

definition pow2 :: "int \<Rightarrow> rat" where
  "pow2 e = (if 0 \<le> e then 2 ^ nat e else 1 / 2 ^ nat (- e))"

definition ilog2 :: "rat \<Rightarrow> int" where
  \<comment> \<open>for \<open>q > 0\<close>: the \<open>e\<close> with \<open>2^e \<le> q < 2^(e+1)\<close>\<close>
  "ilog2 q = (let (a, b) = quotient_of q; d = bitlen a - bitlen b
              in if pow2 d \<le> q then d else d - 1)"

definition rne :: "rat \<Rightarrow> int" where
  \<comment> \<open>round to the nearest integer, a tie to the even one\<close>
  "rne q = (let f = \<lfloor>q\<rfloor>; r = q - of_int f
            in if r < 1 / 2 then f
               else if 1 / 2 < r then f + 1
               else if even f then f else f + 1)"

definition round53 :: "rat \<Rightarrow> rat" where
  "round53 q = (if q = 0 then 0
                else let e = ilog2 \<bar>q\<bar> - 52
                     in sgn q * of_int (rne (\<bar>q\<bar> / pow2 e)) * pow2 e)"

definition fadd :: "rat \<Rightarrow> rat \<Rightarrow> rat" where
  \<comment> \<open>\<open>a + b\<close> on doubles; adding zero is exact\<close>
  "fadd a b = (if a = 0 then b else if b = 0 then a else round53 (a + b))"

definition dround :: "int \<Rightarrow> int" where
  \<comment> \<open>the double nearest to a whole number; it is a whole number again\<close>
  "dround n = \<lfloor>round53 (of_int n)\<rfloor>"

definition is_double :: "int \<Rightarrow> bool" where
  \<comment> \<open>the whole number is a double\<close>
  "is_double n = (dround n = n)"

definition dadd :: "int \<Rightarrow> int \<Rightarrow> int" where
  \<comment> \<open>\<open>a + b\<close> on doubles that hold whole numbers\<close>
  "dadd a b = dround (a + b)"

definition dsub :: "int \<Rightarrow> int \<Rightarrow> int" where
  \<comment> \<open>\<open>a - b\<close> on doubles that hold whole numbers\<close>
  "dsub a b = dround (a - b)"

section \<open>The module catalog (\<open>HabitatModules.moduleTypes\<close>)\<close>

record dims =
  width :: int
  height :: int

text \<open>
  A profile of the catalog. The fields \<open>icon\<close>, \<open>description\<close>, \<open>color\<close> and
  \<open>requirements\<close> are presentation only and are left out. Only the power module
  defines \<open>powerGeneration\<close>; on the others the property is \<open>undefined\<close>.
\<close>

record module_type =
  name :: string
  dimensions :: dims
  powerConsumption :: int
  powerGeneration :: "int option"
  oxygenProduction :: int
  oxygenConsumption :: int
  crewCapacity :: int
  area :: rat

definition p_living_quarters :: module_type where
  "p_living_quarters =
    \<lparr>name = ''Living Quarters'', dimensions = \<lparr>width = 120, height = 100\<rparr>,
     powerConsumption = 15, powerGeneration = None, oxygenProduction = 0,
     oxygenConsumption = 5, crewCapacity = 4, area = round53 12\<rparr>"

definition p_laboratory :: module_type where
  "p_laboratory =
    \<lparr>name = ''Laboratory'', dimensions = \<lparr>width = 140, height = 120\<rparr>,
     powerConsumption = 25, powerGeneration = None, oxygenProduction = 0,
     oxygenConsumption = 3, crewCapacity = 2, area = round53 (168 / 10)\<rparr>"

definition p_greenhouse :: module_type where
  "p_greenhouse =
    \<lparr>name = ''Greenhouse'', dimensions = \<lparr>width = 160, height = 140\<rparr>,
     powerConsumption = 30, powerGeneration = None, oxygenProduction = 15,
     oxygenConsumption = 2, crewCapacity = 1, area = round53 (224 / 10)\<rparr>"

definition p_workshop :: module_type where
  "p_workshop =
    \<lparr>name = ''Workshop'', dimensions = \<lparr>width = 130, height = 110\<rparr>,
     powerConsumption = 20, powerGeneration = None, oxygenProduction = 0,
     oxygenConsumption = 4, crewCapacity = 2, area = round53 (143 / 10)\<rparr>"

definition p_recreation :: module_type where
  "p_recreation =
    \<lparr>name = ''Recreation'', dimensions = \<lparr>width = 150, height = 130\<rparr>,
     powerConsumption = 18, powerGeneration = None, oxygenProduction = 0,
     oxygenConsumption = 6, crewCapacity = 8, area = round53 (195 / 10)\<rparr>"

definition p_airlock :: module_type where
  "p_airlock =
    \<lparr>name = ''Airlock'', dimensions = \<lparr>width = 80, height = 80\<rparr>,
     powerConsumption = 10, powerGeneration = None, oxygenProduction = 0,
     oxygenConsumption = 1, crewCapacity = 2, area = round53 (64 / 10)\<rparr>"

definition p_power :: module_type where
  "p_power =
    \<lparr>name = ''Power Module'', dimensions = \<lparr>width = 100, height = 100\<rparr>,
     powerConsumption = 0, powerGeneration = Some 50, oxygenProduction = 0,
     oxygenConsumption = 0, crewCapacity = 0, area = round53 10\<rparr>"

definition p_storage :: module_type where
  "p_storage =
    \<lparr>name = ''Storage'', dimensions = \<lparr>width = 110, height = 90\<rparr>,
     powerConsumption = 5, powerGeneration = None, oxygenProduction = 0,
     oxygenConsumption = 0, crewCapacity = 0, area = round53 (99 / 10)\<rparr>"

definition moduleTypes :: "(string \<times> module_type) list" where
  "moduleTypes =
    [(''living-quarters'', p_living_quarters),
     (''laboratory'', p_laboratory),
     (''greenhouse'', p_greenhouse),
     (''workshop'', p_workshop),
     (''recreation'', p_recreation),
     (''airlock'', p_airlock),
     (''power'', p_power),
     (''storage'', p_storage)]"

text \<open>
  \<open>moduleTypes\<close> is an object literal, so \<open>moduleTypes[k]\<close> also finds the members of
  \<open>Object.prototype\<close>: for these keys the lookup yields a function (for \<open>__proto__\<close>, the
  prototype object itself), a truthy value on which no field of a profile is defined.
\<close>

definition object_prototype_keys :: "string list" where
  "object_prototype_keys =
    [''constructor'', ''__defineGetter__'', ''__defineSetter__'', ''hasOwnProperty'',
     ''__lookupGetter__'', ''__lookupSetter__'', ''isPrototypeOf'',
     ''propertyIsEnumerable'', ''toString'', ''valueOf'', ''__proto__'',
     ''toLocaleString'']"

datatype lookup = Profile module_type | Inherited | Null

definition getModuleType :: "string \<Rightarrow> lookup" where
  \<comment> \<open>\<open>return this.moduleTypes[moduleId] || null\<close>\<close>
  "getModuleType moduleId =
     (case map_of moduleTypes moduleId of
        Some p \<Rightarrow> Profile p
      | None \<Rightarrow> if moduleId \<in> set object_prototype_keys then Inherited else Null)"

definition getAllModuleTypes :: "string list" where
  "getAllModuleTypes = map fst moduleTypes"

section \<open>Placed modules and placement validation\<close>

text \<open>
  An element of \<open>HabitatDesigner.modules\<close>. \<open>addModule\<close> builds it as
  \<open>{id, type, x, y, ...moduleInfo}\<close>, so it carries a copy of its profile's \<open>dimensions\<close>;
  an element restored from a persisted document has the fields the document gives it,
  and \<open>m_dimensions\<close> is \<open>None\<close> when the document has none.
\<close>

record placed_module =
  m_id :: int
  m_type :: string
  m_x :: int
  m_y :: int
  m_dimensions :: "dims option"

record position =
  pos_x :: int
  pos_y :: int

record rect =
  rect_x :: int
  rect_y :: int
  rect_width :: int
  rect_height :: int

record validation =
  valid :: bool
  reason :: "string option"

datatype error = TypeError

definition modulesOverlap :: "rect \<Rightarrow> rect \<Rightarrow> bool" where
  "modulesOverlap module1 module2 =
     (\<not> (dadd (rect_x module1) (rect_width module1) \<le> rect_x module2 \<or>
          dadd (rect_x module2) (rect_width module2) \<le> rect_x module1 \<or>
          dadd (rect_y module1) (rect_height module1) \<le> rect_y module2 \<or>
          dadd (rect_y module2) (rect_height module2) \<le> rect_y module1))"

definition rect_of :: "int \<Rightarrow> int \<Rightarrow> dims \<Rightarrow> rect" where
  \<comment> \<open>\<open>{ x: x, y: y, ...dimensions }\<close>\<close>
  "rect_of x y d = \<lparr>rect_x = x, rect_y = y, rect_width = width d, rect_height = height d\<rparr>"

text \<open>
  The loop over \<open>existingModules\<close>. Each round evaluates
  \<open>this.getModuleType(existingModule.type).dimensions\<close>: on \<open>null\<close> (a type that is not
  in the catalog) the property access throws a \<open>TypeError\<close>. For an inherited member the
  access yields \<open>undefined\<close>, the spread adds nothing, and the second rectangle has no
  \<open>width\<close> and no \<open>height\<close>: the two comparisons of \<open>modulesOverlap\<close> that add them compare
  \<open>NaN\<close> and are false.
\<close>

fun overlap_loop :: "module_type \<Rightarrow> position \<Rightarrow> placed_module list \<Rightarrow> error + validation" where
  "overlap_loop profile pos [] = Inr \<lparr>valid = True, reason = None\<rparr>"
| "overlap_loop profile pos (existingModule # rest) =
     (case getModuleType (m_type existingModule) of
        Null \<Rightarrow> Inl TypeError
      | Inherited \<Rightarrow>
          if \<not> (dadd (pos_x pos) (width (dimensions profile)) \<le> m_x existingModule \<or>
                 dadd (pos_y pos) (height (dimensions profile)) \<le> m_y existingModule)
          then Inr \<lparr>valid = False, reason = Some ''Module overlaps with existing module''\<rparr>
          else overlap_loop profile pos rest
      | Profile other \<Rightarrow>
          if modulesOverlap (rect_of (pos_x pos) (pos_y pos) (dimensions profile))
               (rect_of (m_x existingModule) (m_y existingModule) (dimensions other))
          then Inr \<lparr>valid = False, reason = Some ''Module overlaps with existing module''\<rparr>
          else overlap_loop profile pos rest)"

definition validateModulePlacement ::
  "string \<Rightarrow> position \<Rightarrow> placed_module list \<Rightarrow> dims \<Rightarrow> error + validation" where
  "validateModulePlacement moduleType pos existingModules canvasSize =
     (case getModuleType moduleType of
        Null \<Rightarrow> Inr \<lparr>valid = False, reason = Some ''Invalid module type''\<rparr>
      | Inherited \<Rightarrow>
          \<comment> \<open>\<open>module.dimensions\<close> is \<open>undefined\<close>: reading its \<open>width\<close> throws\<close>
          if pos_x pos < 0 \<or> pos_y pos < 0
          then Inr \<lparr>valid = False, reason = Some ''Module extends beyond habitat boundary''\<rparr>
          else Inl TypeError
      | Profile profile \<Rightarrow>
          if pos_x pos < 0 \<or> pos_y pos < 0 \<or>
             dadd (pos_x pos) (width (dimensions profile)) > width canvasSize \<or>
             dadd (pos_y pos) (height (dimensions profile)) > height canvasSize
          then Inr \<lparr>valid = False, reason = Some ''Module extends beyond habitat boundary''\<rparr>
          else overlap_loop profile pos existingModules)"

section \<open>Resource aggregation (\<open>calculateTotalResources\<close>)\<close>

record totals =
  totalPowerConsumption :: int
  totalPowerGeneration :: int
  totalOxygenProduction :: int
  totalOxygenConsumption :: int
  totalCrewCapacity :: int
  totalArea :: rat

text \<open>
  The object \<open>calculateTotalResources\<close> returns; \<open>r_modules\<close> is \<open>modules.length\<close>.
  \<open>ResourceCalculator.updateResources\<close> then stores \<open>moduleTypes\<close> on it, so the field is
  \<open>None\<close> (\<open>undefined\<close>) until then.
\<close>

record resources =
  r_powerBalance :: int
  r_oxygenBalance :: int
  r_crewCapacity :: int
  r_totalArea :: rat
  r_modules :: int
  r_powerConsumption :: int
  r_powerGeneration :: int
  r_oxygenProduction :: int
  r_oxygenConsumption :: int
  r_moduleTypes :: "string list option"

definition or0 :: "int option \<Rightarrow> int" where
  \<comment> \<open>\<open>v || 0\<close> for a field that may be \<open>undefined\<close>\<close>
  "or0 v = (case v of None \<Rightarrow> 0 | Some n \<Rightarrow> n)"

definition accumulate :: "totals \<Rightarrow> placed_module \<Rightarrow> totals" where
  \<comment> \<open>the body of the \<open>forEach\<close>; on an inherited member every field is \<open>undefined\<close>,
      so every \<open>field || 0\<close> is \<open>0\<close>\<close>
  "accumulate t m =
     (case getModuleType (m_type m) of
        Null \<Rightarrow> t
      | Inherited \<Rightarrow>
          \<lparr>totalPowerConsumption = totalPowerConsumption t + 0,
           totalPowerGeneration = totalPowerGeneration t + 0,
           totalOxygenProduction = totalOxygenProduction t + 0,
           totalOxygenConsumption = totalOxygenConsumption t + 0,
           totalCrewCapacity = totalCrewCapacity t + 0,
           totalArea = fadd (totalArea t) 0\<rparr>
      | Profile moduleType \<Rightarrow>
          \<lparr>totalPowerConsumption = totalPowerConsumption t + powerConsumption moduleType,
           totalPowerGeneration = totalPowerGeneration t + or0 (powerGeneration moduleType),
           totalOxygenProduction = totalOxygenProduction t + oxygenProduction moduleType,
           totalOxygenConsumption = totalOxygenConsumption t + oxygenConsumption moduleType,
           totalCrewCapacity = totalCrewCapacity t + crewCapacity moduleType,
           totalArea = fadd (totalArea t) (area moduleType)\<rparr>)"

definition zero_totals :: totals where
  "zero_totals =
     \<lparr>totalPowerConsumption = 0, totalPowerGeneration = 0, totalOxygenProduction = 0,
      totalOxygenConsumption = 0, totalCrewCapacity = 0, totalArea = 0\<rparr>"

definition calculateTotalResources :: "placed_module list \<Rightarrow> resources" where
  "calculateTotalResources ms =
     (let t = foldl accumulate zero_totals ms
      in \<lparr>r_powerBalance = totalPowerGeneration t - totalPowerConsumption t,
          r_oxygenBalance = totalOxygenProduction t - totalOxygenConsumption t,
          r_crewCapacity = totalCrewCapacity t,
          r_totalArea = totalArea t,
          r_modules = int (length ms),
          r_powerConsumption = totalPowerConsumption t,
          r_powerGeneration = totalPowerGeneration t,
          r_oxygenProduction = totalOxygenProduction t,
          r_oxygenConsumption = totalOxygenConsumption t,
          r_moduleTypes = None\<rparr>)"

definition updateResources :: "placed_module list \<Rightarrow> resources" where
  \<comment> \<open>\<open>ResourceCalculator.updateResources\<close>: the object it hands to the displays and to
      \<open>getSafetyAlerts\<close>\<close>
  "updateResources ms =
     (calculateTotalResources ms)\<lparr>r_moduleTypes := Some (map m_type ms)\<rparr>"

section \<open>Safety alerts (\<open>getSafetyAlerts\<close>)\<close>

text \<open>
  The message texts, by the rule that pushes them; the number is the one the template
  string prints (\<open>Math.abs(powerBalance)\<close> for the deficits).
\<close>

datatype message =
    PowerDeficit int
  | LowPowerReserve int
  | OxygenDeficit int
  | LowOxygenReserve int
  | NoLivingQuarters
  | LimitedCrewCapacity int
  | NoAirlock
  | NoPowerModules
  | AllSystemsNominal

record alert =
  a_type :: string
  a_message :: message

definition moduleTypes_or_empty :: "resources \<Rightarrow> string list" where
  \<comment> \<open>\<open>const moduleTypes = resources.moduleTypes || []\<close>\<close>
  "moduleTypes_or_empty r = (case r_moduleTypes r of None \<Rightarrow> [] | Some ts \<Rightarrow> ts)"

definition getSafetyAlerts :: "resources \<Rightarrow> alert list" where
  "getSafetyAlerts r =
     (let alerts = [];
          alerts = alerts @
            (if r_powerBalance r < 0
             then [\<lparr>a_type = ''danger'', a_message = PowerDeficit \<bar>r_powerBalance r\<bar>\<rparr>]
             else if r_powerBalance r < 10
             then [\<lparr>a_type = ''warning'', a_message = LowPowerReserve (r_powerBalance r)\<rparr>]
             else []);
          alerts = alerts @
            (if r_oxygenBalance r < 0
             then [\<lparr>a_type = ''danger'', a_message = OxygenDeficit \<bar>r_oxygenBalance r\<bar>\<rparr>]
             else if r_oxygenBalance r < 5
             then [\<lparr>a_type = ''warning'', a_message = LowOxygenReserve (r_oxygenBalance r)\<rparr>]
             else []);
          alerts = alerts @
            (if r_crewCapacity r = 0
             then [\<lparr>a_type = ''warning'', a_message = NoLivingQuarters\<rparr>]
             else if r_crewCapacity r < 4
             then [\<lparr>a_type = ''warning'', a_message = LimitedCrewCapacity (r_crewCapacity r)\<rparr>]
             else []);
          present = moduleTypes_or_empty r;
          alerts = alerts @
            (if ''airlock'' \<notin> set present
             then [\<lparr>a_type = ''warning'', a_message = NoAirlock\<rparr>] else []);
          alerts = alerts @
            (if ''power'' \<notin> set present
             then [\<lparr>a_type = ''danger'', a_message = NoPowerModules\<rparr>] else [])
      in if alerts = []
         then [\<lparr>a_type = ''safe'', a_message = AllSystemsNominal\<rparr>]
         else alerts)"

section \<open>The designer state (\<open>HabitatDesigner\<close>)\<close>

text \<open>
  The fields of \<open>HabitatDesigner\<close> that the operations below read or write. The canvas,
  the drag state and the grid flag belong to the presentation.
\<close>

record designer =
  modules :: "placed_module list"
  selectedModule :: "placed_module option"
  nextModuleId :: int

definition init :: designer where
  \<comment> \<open>the constructor\<close>
  "init = \<lparr>modules = [], selectedModule = None, nextModuleId = 1\<rparr>"

definition addModule :: "string \<Rightarrow> int \<Rightarrow> int \<Rightarrow> dims \<Rightarrow> designer \<Rightarrow> error + designer" where
  \<comment> \<open>\<open>canvasRect\<close> is the measured canvas; every catalog width and height is even, so
      \<open>width / 2\<close> is the whole number \<open>width div 2\<close>; \<open>nextModuleId++\<close> yields the old
      value and stores the double \<open>nextModuleId + 1\<close>\<close>
  "addModule moduleType x y canvasRect d =
     (case getModuleType moduleType of
        Null \<Rightarrow> Inr d
      | Inherited \<Rightarrow> Inl TypeError
      | Profile moduleInfo \<Rightarrow>
          let adjustedX = max 0 (dsub x (width (dimensions moduleInfo) div 2));
              adjustedY = max 0 (dsub y (height (dimensions moduleInfo) div 2))
          in (case validateModulePlacement moduleType \<lparr>pos_x = adjustedX, pos_y = adjustedY\<rparr>
                     (modules d) canvasRect of
                Inl e \<Rightarrow> Inl e
              | Inr validation \<Rightarrow>
                  if \<not> valid validation then Inr d
                  else Inr (d\<lparr>modules := modules d @
                                  [\<lparr>m_id = nextModuleId d, m_type = moduleType,
                                    m_x = adjustedX, m_y = adjustedY,
                                    m_dimensions = Some (dimensions moduleInfo)\<rparr>],
                              nextModuleId := dadd (nextModuleId d) 1\<rparr>)))"

fun findIndex :: "('a \<Rightarrow> bool) \<Rightarrow> 'a list \<Rightarrow> nat option" where
  \<comment> \<open>\<open>Array.prototype.findIndex\<close>; \<open>None\<close> is its \<open>-1\<close>\<close>
  "findIndex P [] = None"
| "findIndex P (a # as) =
     (if P a then Some 0 else map_option Suc (findIndex P as))"

definition removeModule :: "int \<Rightarrow> designer \<Rightarrow> designer" where
  "removeModule moduleId d =
     (case findIndex (\<lambda>m. m_id m = moduleId) (modules d) of
        None \<Rightarrow> d
      | Some moduleIndex \<Rightarrow>
          d\<lparr>modules := take moduleIndex (modules d) @ drop (Suc moduleIndex) (modules d),
            selectedModule :=
              (case selectedModule d of
                 None \<Rightarrow> None
               | Some sel \<Rightarrow> if m_id sel = moduleId then None else Some sel)\<rparr>)"

definition clearHabitat :: "bool \<Rightarrow> designer \<Rightarrow> designer" where
  \<comment> \<open>\<open>confirmed\<close> is the user's answer to the \<open>confirm\<close> dialog\<close>
  "clearHabitat confirmed d =
     (if modules d = [] then d
      else if confirmed then d\<lparr>modules := [], selectedModule := None\<rparr>
      else d)"

text \<open>
  What \<open>loadHabitat\<close> finds in local storage: nothing; a text that \<open>JSON.parse\<close> rejects;
  or a parsed value, whose \<open>modules\<close> is an array of module objects (\<open>Some\<close>) or is absent
  or not an array (\<open>None\<close>), in which case \<open>habitatData.modules.forEach\<close> throws.
\<close>

datatype saved_data = Missing | Unparseable | Parsed "placed_module list option"

text \<open>
  The \<open>forEach\<close> of \<open>loadHabitat\<close>: each element is pushed first, then
  \<open>createModuleElement\<close> reads \<open>module.dimensions.width\<close>, which throws on an element
  without dimensions. The result is the module list and whether the loop threw.
\<close>

fun restore_loop :: "placed_module list \<Rightarrow> placed_module list \<Rightarrow> placed_module list \<times> bool" where
  "restore_loop ms [] = (ms, False)"
| "restore_loop ms (moduleData # rest) =
     (if m_dimensions moduleData = None then (ms @ [moduleData], True)
      else restore_loop (ms @ [moduleData]) rest)"

definition loadHabitat :: "saved_data \<Rightarrow> bool \<Rightarrow> designer \<Rightarrow> designer" where
  \<comment> \<open>every exception after \<open>JSON.parse\<close> is caught by the \<open>catch\<close> of \<open>loadHabitat\<close>\<close>
  "loadHabitat savedData confirmed d =
     (case savedData of
        Missing \<Rightarrow> d
      | Unparseable \<Rightarrow> d
      | Parsed habitatData \<Rightarrow>
          let d1 = clearHabitat confirmed d
          in (case habitatData of
                None \<Rightarrow> d1
              | Some ds \<Rightarrow>
                  let (ms, threw) = restore_loop (modules d1) ds
                  in if threw then d1\<lparr>modules := ms\<rparr>
                     else if ms \<noteq> []
                     then d1\<lparr>modules := ms,
                             nextModuleId := dadd (Max (set (map m_id ms))) 1\<rparr>
                     else d1\<lparr>modules := ms\<rparr>))"

subsection \<open>Sequences of operations\<close>

datatype op =
    Add string int int dims
  | Remove int
  | Clear bool
  | Restore saved_data bool

fun exec :: "op \<Rightarrow> designer \<Rightarrow> designer" where
  \<comment> \<open>a \<open>TypeError\<close> that escapes \<open>addModule\<close> ends the event handler before anything is
      written\<close>
  "exec (Add moduleType x y canvasRect) d =
     (case addModule moduleType x y canvasRect d of Inl e \<Rightarrow> d | Inr d' \<Rightarrow> d')"
| "exec (Remove moduleId) d = removeModule moduleId d"
| "exec (Clear confirmed) d = clearHabitat confirmed d"
| "exec (Restore savedData confirmed) d = loadHabitat savedData confirmed d"

fun run :: "designer \<Rightarrow> op list \<Rightarrow> designer" where
  "run d [] = d"
| "run d (a # as) = run (exec a d) as"

fun trace :: "designer \<Rightarrow> op list \<Rightarrow> designer list" where
  \<comment> \<open>every state the sequence goes through, the first and the last included\<close>
  "trace d [] = [d]"
| "trace d (a # as) = d # trace (exec a d) as"

definition ids_held :: "designer list \<Rightarrow> int set" where
  "ids_held ds = (\<Union>d \<in> set ds. m_id ` set (modules d))"

fun is_restore :: "op \<Rightarrow> bool" where
  "is_restore (Restore savedData confirmed) = True"
| "is_restore a = False"

fun renderable :: "op \<Rightarrow> bool" where
  \<comment> \<open>a restore whose document gives every module its dimensions, as \<open>saveHabitat\<close>
      writes them\<close>
  "renderable (Restore (Parsed (Some ds)) confirmed) = list_all (\<lambda>m. m_dimensions m \<noteq> None) ds"
| "renderable a = True"

fun ids_within :: "int \<Rightarrow> op \<Rightarrow> bool" where
  \<comment> \<open>a restore whose document gives every module an id between 0 and \<open>M\<close>\<close>
  "ids_within M (Restore (Parsed (Some ds)) confirmed) =
     list_all (\<lambda>m. 0 \<le> m_id m \<and> m_id m \<le> M) ds"
| "ids_within M a = True"

definition ids_below :: "int \<Rightarrow> designer \<Rightarrow> bool" where
  \<comment> \<open>the ids in the list are non-negative and below the counter, which is at most \<open>C\<close>\<close>
  "ids_below C d =
     ((\<forall>m \<in> set (modules d). 0 \<le> m_id m \<and> m_id m < nextModuleId d) \<and>
      0 \<le> nextModuleId d \<and> nextModuleId d \<le> C)"

section \<open>Sample inputs\<close>

definition surface :: dims where
  \<comment> \<open>a canvas of 800 by 600\<close>
  "surface = \<lparr>width = 800, height = 600\<rparr>"

definition power_at :: "int \<Rightarrow> int \<Rightarrow> placed_module" where
  \<comment> \<open>the power module that \<open>addModule\<close> creates with id \<open>i\<close> at \<open>(x, 0)\<close>\<close>
  "power_at i x = \<lparr>m_id = i, m_type = ''power'', m_x = x, m_y = 0,
                   m_dimensions = Some \<lparr>width = 100, height = 100\<rparr>\<rparr>"

definition state_of :: "placed_module list \<Rightarrow> int \<Rightarrow> designer" where
  "state_of ms n = \<lparr>modules = ms, selectedModule = None, nextModuleId = n\<rparr>"

definition placements :: "op list" where
  \<comment> \<open>three drops that place power modules side by side, with ids 1, 2 and 3\<close>
  "placements =
     [Add ''power'' 50 50 surface, Add ''power'' 150 50 surface, Add ''power'' 250 50 surface]"

definition saved_first :: op where
  \<comment> \<open>restoring the document saved after the first placement, the clear confirmed\<close>
  "saved_first = Restore (Parsed (Some [power_at 1 0])) True"

definition of_type :: "string \<Rightarrow> placed_module" where
  \<comment> \<open>a module of the given type; aggregation reads nothing but the type\<close>
  "of_type t = \<lparr>m_id = 0, m_type = t, m_x = 0, m_y = 0, m_dimensions = None\<rparr>"

section \<open>The rounding of doubles\<close>

lemma pow2_powi: "pow2 e = 2 powi e"
  by (simp add: pow2_def power_int_def inverse_eq_divide power_one_over)

lemma pow2_pos: "0 < pow2 e"
  by (simp add: pow2_def)

lemma pow2_add: "pow2 (x + y) = pow2 x * pow2 y"
  by (simp add: pow2_powi power_int_add)

lemma pow2_nat: "0 \<le> e \<Longrightarrow> pow2 e = 2 ^ nat e"
  by (simp add: pow2_def)

lemma rne_nearest: "\<bar>of_int (rne q) - q\<bar> \<le> 1 / 2"
proof -
  have "of_int \<lfloor>q\<rfloor> \<le> q" "q < of_int \<lfloor>q\<rfloor> + 1" by linarith+
  then show ?thesis
    by (auto simp add: rne_def Let_def abs_le_iff)
qed

lemma rne_range:
  assumes "2 ^ 52 \<le> s" and "s < 2 ^ 53"
  shows "2 ^ 52 \<le> rne s \<and> rne s \<le> 2 ^ 53"
proof -
  have lo: "(2::int) ^ 52 \<le> \<lfloor>s\<rfloor>"
    using assms(1) by (simp add: le_floor_iff)
  have hi: "\<lfloor>s\<rfloor> < (2::int) ^ 53"
    using assms(2) by (simp add: floor_less_iff)
  have "\<lfloor>s\<rfloor> \<le> rne s" "rne s \<le> \<lfloor>s\<rfloor> + 1"
    by (simp_all add: rne_def Let_def)
  then show ?thesis using lo hi by linarith
qed

lemma ilog2_bounds:
  assumes "0 < q"
  shows "pow2 (ilog2 q) \<le> q \<and> q < pow2 (ilog2 q + 1)"
proof -
  obtain a b where ab: "quotient_of q = (a, b)" by (cases "quotient_of q")
  have b: "0 < b" using ab by (rule quotient_of_denom_pos)
  have q: "q = of_int a / of_int b" using ab by (rule quotient_of_div)
  have a: "0 < a" using assms b q by (simp add: zero_less_divide_iff)
  define d where "d = bitlen a - bitlen b"
  have la: "1 \<le> bitlen a" and lb: "1 \<le> bitlen b"
    using a b by (auto simp: bitlen_alt_def)
  have a1: "pow2 (bitlen a - 1) \<le> of_int a"
  proof -
    have "rat_of_int (2 ^ nat (bitlen a - 1)) \<le> of_int a"
      using bitlen_bounds[OF a] by (simp only: of_int_le_iff)
    then show ?thesis using la by (simp add: pow2_nat)
  qed
  have a2: "of_int a < pow2 (bitlen a)"
  proof -
    have "rat_of_int a < of_int (2 ^ nat (bitlen a))"
      using bitlen_bounds[OF a] by (simp only: of_int_less_iff)
    then show ?thesis using la by (simp add: pow2_nat)
  qed
  have b1: "pow2 (bitlen b - 1) \<le> of_int b"
  proof -
    have "rat_of_int (2 ^ nat (bitlen b - 1)) \<le> of_int b"
      using bitlen_bounds[OF b] by (simp only: of_int_le_iff)
    then show ?thesis using lb by (simp add: pow2_nat)
  qed
  have b2: "of_int b < pow2 (bitlen b)"
  proof -
    have "rat_of_int b < of_int (2 ^ nat (bitlen b))"
      using bitlen_bounds[OF b] by (simp only: of_int_less_iff)
    then show ?thesis using lb by (simp add: pow2_nat)
  qed
  have bpos: "0 < rat_of_int b" using b by simp
  have up: "q < pow2 (d + 1)"
  proof -
    have "pow2 (d + 1) * pow2 (bitlen b - 1) = pow2 (bitlen a)"
      by (simp add: pow2_add[symmetric] d_def)
    moreover have "pow2 (d + 1) * pow2 (bitlen b - 1) \<le> pow2 (d + 1) * of_int b"
      using b1 pow2_pos[of "d + 1"] by (simp add: mult_le_cancel_left_pos)
    ultimately have "of_int a < pow2 (d + 1) * of_int b"
      using a2 by linarith
    then show ?thesis using bpos by (simp add: q pos_divide_less_eq)
  qed
  have low: "pow2 (d - 1) < q"
  proof -
    have "pow2 (d - 1) * pow2 (bitlen b) = pow2 (bitlen a - 1)"
      by (simp add: pow2_add[symmetric] d_def)
    moreover have "pow2 (d - 1) * of_int b < pow2 (d - 1) * pow2 (bitlen b)"
      using b2 pow2_pos[of "d - 1"] by (simp add: mult_less_cancel_left_pos)
    ultimately have "pow2 (d - 1) * of_int b < of_int a"
      using a1 by linarith
    then show ?thesis using bpos by (simp add: q pos_less_divide_eq)
  qed
  show ?thesis
  proof (cases "pow2 d \<le> q")
    case True
    then have "ilog2 q = d" by (simp add: ilog2_def ab d_def)
    then show ?thesis using True up by simp
  next
    case False
    then have "ilog2 q = d - 1" by (simp add: ilog2_def ab d_def)
    then show ?thesis using False low by simp
  qed
qed

text \<open>
  \<open>round53\<close> rounds to a nearest double: the result is a whole multiple \<open>m * 2^e\<close> of the
  unit in the last place, with a significand \<open>m\<close> of 53 bits, and it lies within half a
  unit of the argument (\<open>rne\<close> sends a tie to the even significand).
\<close>

lemma round53_nearest:
  assumes "q \<noteq> 0"
  shows "round53 q = sgn q * of_int (rne (\<bar>q\<bar> / pow2 (ilog2 \<bar>q\<bar> - 52))) * pow2 (ilog2 \<bar>q\<bar> - 52) \<and>
         2 ^ 52 \<le> rne (\<bar>q\<bar> / pow2 (ilog2 \<bar>q\<bar> - 52)) \<and>
         rne (\<bar>q\<bar> / pow2 (ilog2 \<bar>q\<bar> - 52)) \<le> 2 ^ 53 \<and>
         \<bar>round53 q - q\<bar> \<le> pow2 (ilog2 \<bar>q\<bar> - 52) / 2"
proof -
  define e where "e = ilog2 \<bar>q\<bar> - 52"
  define s where "s = \<bar>q\<bar> / pow2 e"
  have pos: "0 < \<bar>q\<bar>" using assms by simp
  have ep: "0 < pow2 e" by (rule pow2_pos)
  have r: "round53 q = sgn q * of_int (rne s) * pow2 e"
    using assms by (simp add: round53_def Let_def e_def s_def)
  have "pow2 (e + 52) \<le> \<bar>q\<bar>" "\<bar>q\<bar> < pow2 (e + 52 + 1)"
    using ilog2_bounds[OF pos] by (simp_all add: e_def)
  then have "pow2 52 * pow2 e \<le> \<bar>q\<bar>" "\<bar>q\<bar> < pow2 53 * pow2 e"
    by (simp_all add: pow2_add[symmetric] add.commute)
  then have srange: "2 ^ 52 \<le> s" "s < 2 ^ 53"
    using ep by (simp_all add: s_def pos_le_divide_eq pos_divide_less_eq pow2_def)
  have m: "2 ^ 52 \<le> rne s \<and> rne s \<le> 2 ^ 53"
    using srange by (rule rne_range)
  have "round53 q - q = sgn q * (of_int (rne s) * pow2 e) - sgn q * \<bar>q\<bar>"
    by (simp add: r sgn_mult_abs mult.assoc)
  then have "\<bar>round53 q - q\<bar> = \<bar>sgn q * (of_int (rne s) * pow2 e - \<bar>q\<bar>)\<bar>"
    by (simp only: right_diff_distrib)
  also have "\<dots> = \<bar>of_int (rne s) * pow2 e - \<bar>q\<bar>\<bar>"
    using assms by (simp add: abs_mult abs_sgn_eq)
  also have "\<dots> = \<bar>of_int (rne s) - s\<bar> * pow2 e"
  proof -
    have "of_int (rne s) * pow2 e - \<bar>q\<bar> = (of_int (rne s) - s) * pow2 e"
      using ep by (simp add: s_def algebra_simps)
    then show ?thesis using ep by (simp add: abs_mult)
  qed
  also have "\<dots> \<le> 1 / 2 * pow2 e"
    using rne_nearest[of s] ep by (simp add: mult_le_cancel_right)
  finally have "\<bar>round53 q - q\<bar> \<le> pow2 e / 2" by simp
  then show ?thesis using r m by (simp add: e_def s_def)
qed

text \<open>
  Whole numbers up to \<open>2^53\<close> in magnitude are doubles, and their sums and differences
  within that range are exact.
\<close>

lemma pow2_mono: "a \<le> b \<Longrightarrow> pow2 a \<le> pow2 b"
proof -
  assume "a \<le> b"
  then have "pow2 b = pow2 a * 2 ^ nat (b - a)"
    using pow2_add[of a "b - a"] by (simp add: pow2_nat)
  moreover have "(1::rat) \<le> 2 ^ nat (b - a)" by simp
  ultimately show ?thesis using pow2_pos[of a] by (simp add: mult_le_cancel_left1)
qed

lemma rne_of_int: "rne (of_int j) = j"
  by (simp add: rne_def Let_def)

lemma round53_exact:
  assumes "q \<noteq> 0" and "\<bar>q\<bar> / pow2 (ilog2 \<bar>q\<bar> - 52) = of_int j"
  shows "round53 q = q"
proof -
  have "round53 q = sgn q * (\<bar>q\<bar> / pow2 (ilog2 \<bar>q\<bar> - 52)) * pow2 (ilog2 \<bar>q\<bar> - 52)"
    using assms by (simp add: round53_def Let_def rne_of_int)
  also have "\<dots> = sgn q * \<bar>q\<bar>"
    using pow2_pos[of "ilog2 \<bar>q\<bar> - 52"] by simp
  finally show ?thesis by (simp add: sgn_mult_abs)
qed

lemma round53_of_int:
  assumes "\<bar>n\<bar> \<le> 9007199254740992"
  shows "round53 (of_int n) = of_int n"
proof (cases "n = 0")
  case True
  then show ?thesis by (simp add: round53_def)
next
  case False
  define q :: rat where "q = of_int n"
  define e where "e = ilog2 \<bar>q\<bar> - 52"
  have q0: "q \<noteq> 0" and qpos: "0 < \<bar>q\<bar>" using False by (simp_all add: q_def)
  have absq: "\<bar>q\<bar> = of_int \<bar>n\<bar>" by (simp add: q_def)
  have le: "\<bar>q\<bar> \<le> pow2 53"
    using assms unfolding absq by (simp add: pow2_def) 
  have lo: "pow2 (e + 52) \<le> \<bar>q\<bar>"
    using ilog2_bounds[OF qpos] by (simp add: e_def)
  have e1: "e \<le> 1"
  proof (rule ccontr)
    assume "\<not> e \<le> 1"
    then have "54 \<le> e + 52" by simp
    then have "pow2 54 \<le> pow2 (e + 52)" by (rule pow2_mono)
    then have "pow2 54 \<le> pow2 53" using lo le by linarith
    then show False by (simp add: pow2_def)
  qed
  have "\<exists>j. \<bar>q\<bar> / pow2 e = of_int j"
  proof (cases "e \<le> 0")
    case True
    then have "pow2 e = 1 / 2 ^ nat (- e)"
      by (cases "e = 0") (simp_all add: pow2_def)
    then have "\<bar>q\<bar> / pow2 e = of_int (\<bar>n\<bar> * 2 ^ nat (- e))"
      by (simp add: absq)
    then show ?thesis by blast
  next
    case False
    then have e: "e = 1" using e1 by simp
    then have "pow2 53 \<le> \<bar>q\<bar>" using lo by simp
    then have "\<bar>q\<bar> = pow2 53" using le by simp
    then have "\<bar>q\<bar> / pow2 e = of_int (2 ^ 52)"
      by (simp add: e pow2_def)
    then show ?thesis by blast
  qed
  then obtain j where "\<bar>q\<bar> / pow2 (ilog2 \<bar>q\<bar> - 52) = of_int j"
    by (auto simp add: e_def)
  then have "round53 q = q" using q0 by (rule round53_exact[rotated])
  then show ?thesis by (simp add: q_def)
qed

lemma dround_exact: "\<bar>n\<bar> \<le> 9007199254740992 \<Longrightarrow> dround n = n"
  by (simp add: dround_def round53_of_int)

lemma dadd_exact: "\<bar>a + b\<bar> \<le> 9007199254740992 \<Longrightarrow> dadd a b = a + b"
  by (simp add: dadd_def dround_exact)

lemma dsub_exact: "\<bar>a - b\<bar> \<le> 9007199254740992 \<Longrightarrow> dsub a b = a - b"
  by (simp add: dsub_def dround_exact)

text \<open>
  Beyond \<open>2^53\<close> the sums round: the counter \<open>2^53\<close> stays where it is, and
  \<open>(2^53 - 3) + 100\<close> is \<open>2^53 + 96\<close>.
\<close>

lemma dadd_rounds:
  "dadd 9007199254740992 1 = 9007199254740992"
  "dadd 9007199254740989 100 = 9007199254741088"
  by code_simp+

section \<open>Facts about the catalog\<close>

lemma getModuleType_living_quarters: "getModuleType ''living-quarters'' = Profile p_living_quarters"
  by (simp add: getModuleType_def moduleTypes_def)

lemma getModuleType_airlock: "getModuleType ''airlock'' = Profile p_airlock"
  by (simp add: getModuleType_def moduleTypes_def)

lemma getModuleType_power: "getModuleType ''power'' = Profile p_power"
  by (simp add: getModuleType_def moduleTypes_def)

lemma getModuleType_alien: "getModuleType ''alien'' = Null"
  by (simp add: getModuleType_def moduleTypes_def object_prototype_keys_def)

lemma getModuleType_toString: "getModuleType ''toString'' = Inherited"
  by (simp add: getModuleType_def moduleTypes_def object_prototype_keys_def)

lemma dimensions_airlock: "dimensions p_airlock = \<lparr>width = 80, height = 80\<rparr>"
  by (simp add: p_airlock_def)

lemma dimensions_power: "dimensions p_power = \<lparr>width = 100, height = 100\<rparr>"
  by (simp add: p_power_def)

lemma getModuleType_Profile_iff:
  "(\<exists>p. getModuleType k = Profile p) \<longleftrightarrow> k \<in> set getAllModuleTypes"
proof -
  have "(map_of moduleTypes k \<noteq> None) \<longleftrightarrow> k \<in> fst ` set moduleTypes"
    by (simp add: map_of_eq_None_iff)
  then show ?thesis
    by (auto simp add: getModuleType_def getAllModuleTypes_def split: option.splits)
qed

lemma catalog_dimensions_even:
  "\<forall>(k, p) \<in> set moduleTypes. even (width (dimensions p)) \<and> even (height (dimensions p))"
  by (simp add: moduleTypes_def p_living_quarters_def p_laboratory_def p_greenhouse_def
      p_workshop_def p_recreation_def p_airlock_def p_power_def p_storage_def)

text \<open>
  The areas of the catalog as doubles: each is the value that the literal of the source
  denotes (\<open>6.4\<close> is \<open>3602879701896397 / 2^49\<close>, and so on).
\<close>

lemma catalog_areas:
  "round53 12 = 12"
  "round53 (168 / 10) = 4728779608739021 / 281474976710656"
  "round53 (224 / 10) = 3152519739159347 / 140737488355328"
  "round53 (143 / 10) = 4025092166962381 / 281474976710656"
  "round53 (195 / 10) = 39 / 2"
  "round53 (64 / 10) = 3602879701896397 / 562949953421312"
  "round53 10 = 10"
  "round53 (99 / 10) = 5573204538870989 / 562949953421312"
  by code_simp+

section \<open>Placement validation\<close>

lemma two_53: "(2::int) ^ 53 = 9007199254740992"
  by simp

lemma catalog_dimensions_range:
  assumes "getModuleType t = Profile p"
  shows "0 < width (dimensions p) \<and> width (dimensions p) \<le> 160 \<and>
         0 < height (dimensions p) \<and> height (dimensions p) \<le> 140"
proof -
  have "map_of moduleTypes t = Some p"
    using assms by (simp add: getModuleType_def split: option.splits if_splits)
  then have "(t, p) \<in> set moduleTypes" by (rule map_of_SomeD)
  then show ?thesis
    by (auto simp add: moduleTypes_def p_living_quarters_def p_laboratory_def p_greenhouse_def
        p_workshop_def p_recreation_def p_airlock_def p_power_def p_storage_def)
qed

lemma is_double_small: "\<bar>n\<bar> \<le> 9007199254740992 \<Longrightarrow> is_double n"
  by (simp add: is_double_def dround_exact)

lemma dadd_is_double: "a + b = c \<Longrightarrow> is_double c \<Longrightarrow> dadd a b = c"
  by (simp add: dadd_def is_double_def)

lemma overlap_loop_none:
  assumes "\<forall>m \<in> set existing. \<exists>q. getModuleType (m_type m) = Profile q \<and>
             \<not> modulesOverlap (rect_of (pos_x pos) (pos_y pos) (dimensions p))
                  (rect_of (m_x m) (m_y m) (dimensions q))"
  shows "overlap_loop p pos existing = Inr \<lparr>valid = True, reason = None\<rparr>"
  using assms by (induction existing) auto

text \<open>
  Claim C1. \<open>validateModulePlacement\<close> is to return a typed result on every input, also when
  an existing module has a type that is not in the catalog. It does not: with the power
  module as the candidate at the origin of an 800 by 600 surface and one existing module of
  the unknown type \<open>alien\<close>, the overlap loop reads \<open>dimensions\<close> of \<open>null\<close> and the call
  ends in a \<open>TypeError\<close> instead of a result. A restore puts such a module into the list,
  and the next placement fails in the same way.
\<close>

theorem validate_unknown_existing_throws:
  "validateModulePlacement ''power'' \<lparr>pos_x = 0, pos_y = 0\<rparr>
     [\<lparr>m_id = 1, m_type = ''alien'', m_x = 500, m_y = 500,
       m_dimensions = Some \<lparr>width = 100, height = 100\<rparr>\<rparr>]
     \<lparr>width = 800, height = 600\<rparr> = Inl TypeError \<and>
   modules (loadHabitat
     (Parsed (Some [\<lparr>m_id = 1, m_type = ''alien'', m_x = 500, m_y = 500,
                     m_dimensions = Some \<lparr>width = 100, height = 100\<rparr>\<rparr>])) True init) =
     [\<lparr>m_id = 1, m_type = ''alien'', m_x = 500, m_y = 500,
       m_dimensions = Some \<lparr>width = 100, height = 100\<rparr>\<rparr>] \<and>
   addModule ''power'' 50 50 \<lparr>width = 800, height = 600\<rparr>
     (loadHabitat
       (Parsed (Some [\<lparr>m_id = 1, m_type = ''alien'', m_x = 500, m_y = 500,
                       m_dimensions = Some \<lparr>width = 100, height = 100\<rparr>\<rparr>])) True init) =
     Inl TypeError"
  by (simp add: validateModulePlacement_def getModuleType_power getModuleType_alien
      dimensions_power addModule_def loadHabitat_def clearHabitat_def init_def
      dadd_exact dsub_exact)

text \<open>
  Claim C5, as the code has it. For a known module type at a position with \<open>x \<ge> 0\<close> and
  \<open>y \<ge> 0\<close> on a surface whose width and height are below \<open>2^53\<close>: when every existing
  module has a type of the catalog and none overlaps the candidate, and the candidate is
  flush with the right edge (\<open>x + width = bounds.width\<close>, the other axis inside the surface)
  or flush with the bottom edge, the placement is valid; when
  \<open>x + width = bounds.width + 1\<close> (or likewise in \<open>y\<close>) the result is invalid with the
  boundary reason, whatever the existing modules are.
\<close>

theorem bounds_exactness:
  assumes "getModuleType t = Profile p" and "0 \<le> pos_x pos" and "0 \<le> pos_y pos"
    and "width c < 2 ^ 53" and "height c < 2 ^ 53"
  shows "((\<forall>m \<in> set existing. \<exists>q. getModuleType (m_type m) = Profile q \<and>
             \<not> modulesOverlap (rect_of (pos_x pos) (pos_y pos) (dimensions p))
                  (rect_of (m_x m) (m_y m) (dimensions q))) \<longrightarrow>
          ((pos_x pos + width (dimensions p) = width c \<and>
            pos_y pos + height (dimensions p) \<le> height c) \<or>
           (pos_y pos + height (dimensions p) = height c \<and>
            pos_x pos + width (dimensions p) \<le> width c)) \<longrightarrow>
          validateModulePlacement t pos existing c = Inr \<lparr>valid = True, reason = None\<rparr>) \<and>
         (pos_x pos + width (dimensions p) = width c + 1 \<or>
          pos_y pos + height (dimensions p) = height c + 1 \<longrightarrow>
          validateModulePlacement t pos existing c =
            Inr \<lparr>valid = False, reason = Some ''Module extends beyond habitat boundary''\<rparr>)"
proof (intro conjI impI)
  have dims: "0 < width (dimensions p)" "0 < height (dimensions p)"
    using catalog_dimensions_range[OF assms(1)] by simp_all
  have wc: "width c < 9007199254740992" and hc: "height c < 9007199254740992"
    using assms(4,5) by simp_all
  {
    assume no: "\<forall>m \<in> set existing. \<exists>q. getModuleType (m_type m) = Profile q \<and>
             \<not> modulesOverlap (rect_of (pos_x pos) (pos_y pos) (dimensions p))
                  (rect_of (m_x m) (m_y m) (dimensions q))"
      and flush: "(pos_x pos + width (dimensions p) = width c \<and>
            pos_y pos + height (dimensions p) \<le> height c) \<or>
           (pos_y pos + height (dimensions p) = height c \<and>
            pos_x pos + width (dimensions p) \<le> width c)"
    from flush have le: "pos_x pos + width (dimensions p) \<le> width c"
      "pos_y pos + height (dimensions p) \<le> height c"
      by auto
    have x: "dadd (pos_x pos) (width (dimensions p)) = pos_x pos + width (dimensions p)"
      using le(1) wc assms(2) dims(1) by (intro dadd_exact) simp
    have y: "dadd (pos_y pos) (height (dimensions p)) = pos_y pos + height (dimensions p)"
      using le(2) hc assms(3) dims(2) by (intro dadd_exact) simp
    have inside: "\<not> (pos_x pos < 0 \<or> pos_y pos < 0 \<or>
             dadd (pos_x pos) (width (dimensions p)) > width c \<or>
             dadd (pos_y pos) (height (dimensions p)) > height c)"
      using assms(2,3) le by (simp add: x y)
    show "validateModulePlacement t pos existing c = Inr \<lparr>valid = True, reason = None\<rparr>"
      using inside overlap_loop_none[OF no] by (simp add: validateModulePlacement_def assms(1))
  }
  {
    assume over: "pos_x pos + width (dimensions p) = width c + 1 \<or>
          pos_y pos + height (dimensions p) = height c + 1"
    have "dadd (pos_x pos) (width (dimensions p)) > width c \<or>
          dadd (pos_y pos) (height (dimensions p)) > height c"
    proof (rule disjE[OF over])
      assume e: "pos_x pos + width (dimensions p) = width c + 1"
      have "dadd (pos_x pos) (width (dimensions p)) = pos_x pos + width (dimensions p)"
        using e wc assms(2) dims(1) by (intro dadd_exact) simp
      then show ?thesis using e by simp
    next
      assume e: "pos_y pos + height (dimensions p) = height c + 1"
      have "dadd (pos_y pos) (height (dimensions p)) = pos_y pos + height (dimensions p)"
        using e hc assms(3) dims(2) by (intro dadd_exact) simp
      then show ?thesis using e by simp
    qed
    then show "validateModulePlacement t pos existing c =
            Inr \<lparr>valid = False, reason = Some ''Module extends beyond habitat boundary''\<rparr>"
      by (auto simp add: validateModulePlacement_def assms(1))
  }
qed

theorem bounds_exactness_witness:
  "validateModulePlacement ''power'' \<lparr>pos_x = 700, pos_y = 500\<rparr>
     [\<lparr>m_id = 1, m_type = ''airlock'', m_x = 0, m_y = 0,
       m_dimensions = Some \<lparr>width = 80, height = 80\<rparr>\<rparr>]
     \<lparr>width = 800, height = 600\<rparr> = Inr \<lparr>valid = True, reason = None\<rparr> \<and>
   validateModulePlacement ''power'' \<lparr>pos_x = 701, pos_y = 500\<rparr>
     [\<lparr>m_id = 1, m_type = ''airlock'', m_x = 0, m_y = 0,
       m_dimensions = Some \<lparr>width = 80, height = 80\<rparr>\<rparr>]
     \<lparr>width = 800, height = 600\<rparr> =
     Inr \<lparr>valid = False, reason = Some ''Module extends beyond habitat boundary''\<rparr>"
  using bounds_exactness[OF getModuleType_power, of "\<lparr>pos_x = 700, pos_y = 500\<rparr>"
     "\<lparr>width = 800, height = 600\<rparr>"
     "[\<lparr>m_id = 1, m_type = ''airlock'', m_x = 0, m_y = 0,
        m_dimensions = Some \<lparr>width = 80, height = 80\<rparr>\<rparr>]"]
    bounds_exactness[OF getModuleType_power, of "\<lparr>pos_x = 701, pos_y = 500\<rparr>"
     "\<lparr>width = 800, height = 600\<rparr>"
     "[\<lparr>m_id = 1, m_type = ''airlock'', m_x = 0, m_y = 0,
        m_dimensions = Some \<lparr>width = 80, height = 80\<rparr>\<rparr>]"]
  by (simp add: getModuleType_airlock modulesOverlap_def rect_of_def dimensions_power
      dimensions_airlock dadd_exact)

text \<open>
  The claim as stated fails in two ways. A power module flush with both edges of the 800
  by 600 surface, with a far-away existing module of the unknown type \<open>alien\<close> (no existing
  module overlaps it), does not validate: the overlap loop throws, as in claim C1. And on a
  surface of width \<open>2^53 + 96\<close> a power module at \<open>x = 2^53 - 3\<close> has
  \<open>x + width = bounds.width + 1\<close>, yet the double sum rounds to \<open>bounds.width\<close> and the
  placement validates.
\<close>

theorem bounds_claim_fails:
  "validateModulePlacement ''power'' \<lparr>pos_x = 700, pos_y = 500\<rparr>
     [\<lparr>m_id = 1, m_type = ''alien'', m_x = 0, m_y = 0,
       m_dimensions = Some \<lparr>width = 100, height = 100\<rparr>\<rparr>]
     \<lparr>width = 800, height = 600\<rparr> = Inl TypeError \<and>
   9007199254740989 + width (dimensions p_power) = 9007199254741088 + 1 \<and>
   validateModulePlacement ''power'' \<lparr>pos_x = 9007199254740989, pos_y = 0\<rparr> []
     \<lparr>width = 9007199254741088, height = 600\<rparr> = Inr \<lparr>valid = True, reason = None\<rparr>"
  by (simp add: validateModulePlacement_def getModuleType_power getModuleType_alien
      dimensions_power dadd_exact dadd_rounds)

text \<open>
  Claim C6. Two rectangles of which one's right edge equals the other's left edge, or one's
  bottom edge the other's top edge, do not overlap: when the edge sum equals the facing
  position exactly and that position is a double, and for every pair of rectangles when
  the edge is the sum as the code computes it. Hence an existing module of a known type
  that touches the candidate in this way never makes the placement invalid: validation
  gives the same result as without it.
\<close>

theorem touching_edges_do_not_overlap:
  "(rect_x a + rect_width a = rect_x b \<and> is_double (rect_x b) \<or>
    rect_x b + rect_width b = rect_x a \<and> is_double (rect_x a) \<or>
    rect_y a + rect_height a = rect_y b \<and> is_double (rect_y b) \<or>
    rect_y b + rect_height b = rect_y a \<and> is_double (rect_y a)
      \<longrightarrow> \<not> modulesOverlap a b) \<and>
   (dadd (rect_x a) (rect_width a) = rect_x b \<or> dadd (rect_x b) (rect_width b) = rect_x a \<or>
    dadd (rect_y a) (rect_height a) = rect_y b \<or> dadd (rect_y b) (rect_height b) = rect_y a
      \<longrightarrow> \<not> modulesOverlap a b) \<and>
   (getModuleType t = Profile p \<and> getModuleType (m_type m) = Profile q \<and>
    (pos_x pos + width (dimensions p) = m_x m \<and> is_double (m_x m) \<or>
     m_x m + width (dimensions q) = pos_x pos \<and> is_double (pos_x pos) \<or>
     pos_y pos + height (dimensions p) = m_y m \<and> is_double (m_y m) \<or>
     m_y m + height (dimensions q) = pos_y pos \<and> is_double (pos_y pos))
      \<longrightarrow> validateModulePlacement t pos (m # rest) c = validateModulePlacement t pos rest c) \<and>
   (getModuleType t = Profile p \<and> getModuleType (m_type m) = Profile q \<and>
    (dadd (pos_x pos) (width (dimensions p)) = m_x m \<or>
     dadd (m_x m) (width (dimensions q)) = pos_x pos \<or>
     dadd (pos_y pos) (height (dimensions p)) = m_y m \<or>
     dadd (m_y m) (height (dimensions q)) = pos_y pos)
      \<longrightarrow> validateModulePlacement t pos (m # rest) c = validateModulePlacement t pos rest c)"
proof (intro conjI impI)
  show computed: "\<not> modulesOverlap a b"
    if "dadd (rect_x a) (rect_width a) = rect_x b \<or> dadd (rect_x b) (rect_width b) = rect_x a \<or>
        dadd (rect_y a) (rect_height a) = rect_y b \<or> dadd (rect_y b) (rect_height b) = rect_y a"
    for a b
    using that by (auto simp add: modulesOverlap_def)
  show "\<not> modulesOverlap a b"
    if "rect_x a + rect_width a = rect_x b \<and> is_double (rect_x b) \<or>
        rect_x b + rect_width b = rect_x a \<and> is_double (rect_x a) \<or>
        rect_y a + rect_height a = rect_y b \<and> is_double (rect_y b) \<or>
        rect_y b + rect_height b = rect_y a \<and> is_double (rect_y a)"
  proof -
    from that have "dadd (rect_x a) (rect_width a) = rect_x b \<or>
        dadd (rect_x b) (rect_width b) = rect_x a \<or>
        dadd (rect_y a) (rect_height a) = rect_y b \<or> dadd (rect_y b) (rect_height b) = rect_y a"
      by (auto simp add: dadd_is_double)
    then show ?thesis by (rule computed)
  qed
  show touching: "validateModulePlacement t pos (m # rest) c = validateModulePlacement t pos rest c"
    if "getModuleType t = Profile p \<and> getModuleType (m_type m) = Profile q \<and>
        (dadd (pos_x pos) (width (dimensions p)) = m_x m \<or>
         dadd (m_x m) (width (dimensions q)) = pos_x pos \<or>
         dadd (pos_y pos) (height (dimensions p)) = m_y m \<or>
         dadd (m_y m) (height (dimensions q)) = pos_y pos)"
    using that by (auto simp add: modulesOverlap_def validateModulePlacement_def rect_of_def)
  show "validateModulePlacement t pos (m # rest) c = validateModulePlacement t pos rest c"
    if "getModuleType t = Profile p \<and> getModuleType (m_type m) = Profile q \<and>
        (pos_x pos + width (dimensions p) = m_x m \<and> is_double (m_x m) \<or>
         m_x m + width (dimensions q) = pos_x pos \<and> is_double (pos_x pos) \<or>
         pos_y pos + height (dimensions p) = m_y m \<and> is_double (m_y m) \<or>
         m_y m + height (dimensions q) = pos_y pos \<and> is_double (pos_y pos))"
  proof -
    from that have "dadd (pos_x pos) (width (dimensions p)) = m_x m \<or>
         dadd (m_x m) (width (dimensions q)) = pos_x pos \<or>
         dadd (pos_y pos) (height (dimensions p)) = m_y m \<or>
         dadd (m_y m) (height (dimensions q)) = pos_y pos"
      by (auto simp add: dadd_is_double)
    with that show ?thesis by (intro touching) simp
  qed
qed

theorem touching_edges_do_not_overlap_witness:
  "\<not> modulesOverlap \<lparr>rect_x = 0, rect_y = 0, rect_width = 100, rect_height = 100\<rparr>
        \<lparr>rect_x = 100, rect_y = 0, rect_width = 80, rect_height = 80\<rparr> \<and>
   validateModulePlacement ''power'' \<lparr>pos_x = 0, pos_y = 0\<rparr>
     [\<lparr>m_id = 1, m_type = ''airlock'', m_x = 100, m_y = 0,
       m_dimensions = Some \<lparr>width = 80, height = 80\<rparr>\<rparr>]
     \<lparr>width = 800, height = 600\<rparr> = Inr \<lparr>valid = True, reason = None\<rparr>"
  using touching_edges_do_not_overlap
     [where a = "\<lparr>rect_x = 0, rect_y = 0, rect_width = 100, rect_height = 100\<rparr>"
      and b = "\<lparr>rect_x = 100, rect_y = 0, rect_width = 80, rect_height = 80\<rparr>"
      and t = "''power''" and p = p_power
      and m = "\<lparr>m_id = 1, m_type = ''airlock'', m_x = 100, m_y = 0,
                m_dimensions = Some \<lparr>width = 80, height = 80\<rparr>\<rparr>"
      and q = p_airlock
      and pos = "\<lparr>pos_x = 0, pos_y = 0\<rparr>" and rest = "[]"
      and c = "\<lparr>width = 800, height = 600\<rparr>"]
  by (simp add: getModuleType_power getModuleType_airlock validateModulePlacement_def
      dimensions_power dimensions_airlock dadd_exact is_double_small)

section \<open>Safety alerts\<close>

lemma alerts_of_no_modules:
  "getSafetyAlerts (updateResources []) =
     [\<lparr>a_type = ''warning'', a_message = LowPowerReserve 0\<rparr>,
      \<lparr>a_type = ''warning'', a_message = LowOxygenReserve 0\<rparr>,
      \<lparr>a_type = ''warning'', a_message = NoLivingQuarters\<rparr>,
      \<lparr>a_type = ''warning'', a_message = NoAirlock\<rparr>,
      \<lparr>a_type = ''danger'', a_message = NoPowerModules\<rparr>]"
  by (simp add: getSafetyAlerts_def updateResources_def calculateTotalResources_def
      zero_totals_def moduleTypes_or_empty_def)

lemma alerts_without_types:
  "getSafetyAlerts (calculateTotalResources []) = getSafetyAlerts (updateResources [])"
  by (simp add: getSafetyAlerts_def updateResources_def calculateTotalResources_def
      zero_totals_def moduleTypes_or_empty_def)

text \<open>
  Claim C7. For a Habitat State with no modules, the alerts derived from its resource
  snapshot (with the module types stored on it by \<open>updateResources\<close>, and also without
  them) contain the danger alert for no power generation, the warning for no airlock and
  the warning for no living quarters, and no entry says that all systems are nominal.
\<close>

theorem empty_habitat_alerts:
  assumes "modules d = []"
  shows "(\<forall>alerts \<in> {getSafetyAlerts (updateResources (modules d)),
                      getSafetyAlerts (calculateTotalResources (modules d))}.
            \<lparr>a_type = ''danger'', a_message = NoPowerModules\<rparr> \<in> set alerts \<and>
            \<lparr>a_type = ''warning'', a_message = NoAirlock\<rparr> \<in> set alerts \<and>
            \<lparr>a_type = ''warning'', a_message = NoLivingQuarters\<rparr> \<in> set alerts \<and>
            (\<forall>a \<in> set alerts. a_message a \<noteq> AllSystemsNominal))"
  using assms by (simp add: alerts_without_types alerts_of_no_modules)

theorem empty_habitat_alerts_witness:
  "modules init = [] \<and>
   \<lparr>a_type = ''danger'', a_message = NoPowerModules\<rparr>
      \<in> set (getSafetyAlerts (updateResources (modules init))) \<and>
   \<lparr>a_type = ''warning'', a_message = NoAirlock\<rparr>
      \<in> set (getSafetyAlerts (updateResources (modules init))) \<and>
   \<lparr>a_type = ''warning'', a_message = NoLivingQuarters\<rparr>
      \<in> set (getSafetyAlerts (updateResources (modules init))) \<and>
   \<lparr>a_type = ''safe'', a_message = AllSystemsNominal\<rparr>
      \<notin> set (getSafetyAlerts (updateResources (modules init)))"
proof -
  have empty: "modules init = []" by (simp add: init_def)
  show ?thesis using empty empty_habitat_alerts[OF empty] by auto
qed

lemma getSafetyAlerts_nonempty: "getSafetyAlerts r \<noteq> []"
  by (simp add: getSafetyAlerts_def Let_def)

lemma getSafetyAlerts_nominal_iff:
  "getSafetyAlerts r = [\<lparr>a_type = ''safe'', a_message = AllSystemsNominal\<rparr>] \<longleftrightarrow>
     10 \<le> r_powerBalance r \<and> 5 \<le> r_oxygenBalance r \<and> 4 \<le> r_crewCapacity r \<and>
     ''airlock'' \<in> set (moduleTypes_or_empty r) \<and> ''power'' \<in> set (moduleTypes_or_empty r)"
  by (auto simp add: getSafetyAlerts_def Let_def)

lemma getSafetyAlerts_power:
  "(r_powerBalance r < 0 \<longrightarrow>
      \<lparr>a_type = ''danger'', a_message = PowerDeficit \<bar>r_powerBalance r\<bar>\<rparr> \<in> set (getSafetyAlerts r)) \<and>
   (0 \<le> r_powerBalance r \<and> r_powerBalance r < 10 \<longrightarrow>
      \<lparr>a_type = ''warning'', a_message = LowPowerReserve (r_powerBalance r)\<rparr> \<in> set (getSafetyAlerts r))"
  by (simp add: getSafetyAlerts_def Let_def)

lemma getSafetyAlerts_oxygen:
  "(r_oxygenBalance r < 0 \<longrightarrow>
      \<lparr>a_type = ''danger'', a_message = OxygenDeficit \<bar>r_oxygenBalance r\<bar>\<rparr> \<in> set (getSafetyAlerts r)) \<and>
   (0 \<le> r_oxygenBalance r \<and> r_oxygenBalance r < 5 \<longrightarrow>
      \<lparr>a_type = ''warning'', a_message = LowOxygenReserve (r_oxygenBalance r)\<rparr> \<in> set (getSafetyAlerts r))"
  by (simp add: getSafetyAlerts_def Let_def)

lemma getSafetyAlerts_crew:
  "(r_crewCapacity r = 0 \<longrightarrow>
      \<lparr>a_type = ''warning'', a_message = NoLivingQuarters\<rparr> \<in> set (getSafetyAlerts r)) \<and>
   (r_crewCapacity r \<noteq> 0 \<and> r_crewCapacity r < 4 \<longrightarrow>
      \<lparr>a_type = ''warning'', a_message = LimitedCrewCapacity (r_crewCapacity r)\<rparr> \<in> set (getSafetyAlerts r))"
  by (simp add: getSafetyAlerts_def Let_def)

lemma getSafetyAlerts_presence:
  "(''airlock'' \<notin> set (moduleTypes_or_empty r) \<longrightarrow>
      \<lparr>a_type = ''warning'', a_message = NoAirlock\<rparr> \<in> set (getSafetyAlerts r)) \<and>
   (''power'' \<notin> set (moduleTypes_or_empty r) \<longrightarrow>
      \<lparr>a_type = ''danger'', a_message = NoPowerModules\<rparr> \<in> set (getSafetyAlerts r))"
  by (simp add: getSafetyAlerts_def Let_def)

lemma getSafetyAlerts_no_nominal:
  "\<not> (10 \<le> r_powerBalance r \<and> 5 \<le> r_oxygenBalance r \<and> 4 \<le> r_crewCapacity r \<and>
      ''airlock'' \<in> set (moduleTypes_or_empty r) \<and> ''power'' \<in> set (moduleTypes_or_empty r))
   \<Longrightarrow> a \<in> set (getSafetyAlerts r) \<Longrightarrow> a_message a \<noteq> AllSystemsNominal"
  by (auto simp add: getSafetyAlerts_def Let_def split: if_splits)

text \<open>
  Claim C9. For every resource snapshot the alert list is not empty. It is the single
  \<open>safe\<close> entry "all systems nominal" (the entry the specification calls info) exactly
  when no threshold or presence rule fires. Every rule that applies contributes its alert,
  whatever the other rules do, and when some rule fires no entry is the nominal one.
\<close>

theorem alerts_complete:
  "getSafetyAlerts r \<noteq> [] \<and>
   (getSafetyAlerts r = [\<lparr>a_type = ''safe'', a_message = AllSystemsNominal\<rparr>] \<longleftrightarrow>
      \<not> r_powerBalance r < 0 \<and> \<not> r_powerBalance r < 10 \<and>
      \<not> r_oxygenBalance r < 0 \<and> \<not> r_oxygenBalance r < 5 \<and>
      r_crewCapacity r \<noteq> 0 \<and> \<not> r_crewCapacity r < 4 \<and>
      ''airlock'' \<in> set (moduleTypes_or_empty r) \<and>
      ''power'' \<in> set (moduleTypes_or_empty r)) \<and>
   (r_powerBalance r < 0 \<longrightarrow>
      \<lparr>a_type = ''danger'', a_message = PowerDeficit \<bar>r_powerBalance r\<bar>\<rparr>
        \<in> set (getSafetyAlerts r)) \<and>
   (\<not> r_powerBalance r < 0 \<and> r_powerBalance r < 10 \<longrightarrow>
      \<lparr>a_type = ''warning'', a_message = LowPowerReserve (r_powerBalance r)\<rparr>
        \<in> set (getSafetyAlerts r)) \<and>
   (r_oxygenBalance r < 0 \<longrightarrow>
      \<lparr>a_type = ''danger'', a_message = OxygenDeficit \<bar>r_oxygenBalance r\<bar>\<rparr>
        \<in> set (getSafetyAlerts r)) \<and>
   (\<not> r_oxygenBalance r < 0 \<and> r_oxygenBalance r < 5 \<longrightarrow>
      \<lparr>a_type = ''warning'', a_message = LowOxygenReserve (r_oxygenBalance r)\<rparr>
        \<in> set (getSafetyAlerts r)) \<and>
   (r_crewCapacity r = 0 \<longrightarrow>
      \<lparr>a_type = ''warning'', a_message = NoLivingQuarters\<rparr> \<in> set (getSafetyAlerts r)) \<and>
   (r_crewCapacity r \<noteq> 0 \<and> r_crewCapacity r < 4 \<longrightarrow>
      \<lparr>a_type = ''warning'', a_message = LimitedCrewCapacity (r_crewCapacity r)\<rparr>
        \<in> set (getSafetyAlerts r)) \<and>
   (''airlock'' \<notin> set (moduleTypes_or_empty r) \<longrightarrow>
      \<lparr>a_type = ''warning'', a_message = NoAirlock\<rparr> \<in> set (getSafetyAlerts r)) \<and>
   (''power'' \<notin> set (moduleTypes_or_empty r) \<longrightarrow>
      \<lparr>a_type = ''danger'', a_message = NoPowerModules\<rparr> \<in> set (getSafetyAlerts r)) \<and>
   (r_powerBalance r < 10 \<or> r_oxygenBalance r < 5 \<or> r_crewCapacity r < 4 \<or>
    ''airlock'' \<notin> set (moduleTypes_or_empty r) \<or>
    ''power'' \<notin> set (moduleTypes_or_empty r) \<longrightarrow>
      (\<forall>a \<in> set (getSafetyAlerts r). a_message a \<noteq> AllSystemsNominal))"
proof -
  have nominal: "getSafetyAlerts r = [\<lparr>a_type = ''safe'', a_message = AllSystemsNominal\<rparr>] \<longleftrightarrow>
      \<not> r_powerBalance r < 0 \<and> \<not> r_powerBalance r < 10 \<and>
      \<not> r_oxygenBalance r < 0 \<and> \<not> r_oxygenBalance r < 5 \<and>
      r_crewCapacity r \<noteq> 0 \<and> \<not> r_crewCapacity r < 4 \<and>
      ''airlock'' \<in> set (moduleTypes_or_empty r) \<and>
      ''power'' \<in> set (moduleTypes_or_empty r)"
    unfolding getSafetyAlerts_nominal_iff by auto
  have none: "r_powerBalance r < 10 \<or> r_oxygenBalance r < 5 \<or> r_crewCapacity r < 4 \<or>
    ''airlock'' \<notin> set (moduleTypes_or_empty r) \<or>
    ''power'' \<notin> set (moduleTypes_or_empty r) \<longrightarrow>
      (\<forall>a \<in> set (getSafetyAlerts r). a_message a \<noteq> AllSystemsNominal)"
    using getSafetyAlerts_no_nominal[of r] by auto
  show ?thesis
    using getSafetyAlerts_nonempty[of r] nominal getSafetyAlerts_power[of r]
      getSafetyAlerts_oxygen[of r] getSafetyAlerts_crew[of r] getSafetyAlerts_presence[of r]
      none
    by (simp only: not_less) blast
qed

theorem alerts_complete_witness:
  "getSafetyAlerts \<lparr>r_powerBalance = 35, r_oxygenBalance = 9, r_crewCapacity = 7,
      r_totalArea = 0, r_modules = 4, r_powerConsumption = 55, r_powerGeneration = 100,
      r_oxygenProduction = 15, r_oxygenConsumption = 6,
      r_moduleTypes = Some [''power'', ''airlock'', ''greenhouse'', ''living-quarters'']\<rparr>
     = [\<lparr>a_type = ''safe'', a_message = AllSystemsNominal\<rparr>] \<and>
   \<lparr>a_type = ''danger'', a_message = PowerDeficit 15\<rparr>
     \<in> set (getSafetyAlerts \<lparr>r_powerBalance = - 15, r_oxygenBalance = - 5,
          r_crewCapacity = 4, r_totalArea = 12, r_modules = 1, r_powerConsumption = 15,
          r_powerGeneration = 0, r_oxygenProduction = 0, r_oxygenConsumption = 5,
          r_moduleTypes = Some [''living-quarters'']\<rparr>) \<and>
   \<lparr>a_type = ''danger'', a_message = NoPowerModules\<rparr>
     \<in> set (getSafetyAlerts \<lparr>r_powerBalance = - 15, r_oxygenBalance = - 5,
          r_crewCapacity = 4, r_totalArea = 12, r_modules = 1, r_powerConsumption = 15,
          r_powerGeneration = 0, r_oxygenProduction = 0, r_oxygenConsumption = 5,
          r_moduleTypes = Some [''living-quarters'']\<rparr>) \<and>
   \<lparr>a_type = ''safe'', a_message = AllSystemsNominal\<rparr>
     \<notin> set (getSafetyAlerts \<lparr>r_powerBalance = - 15, r_oxygenBalance = - 5,
          r_crewCapacity = 4, r_totalArea = 12, r_modules = 1, r_powerConsumption = 15,
          r_powerGeneration = 0, r_oxygenProduction = 0, r_oxygenConsumption = 5,
          r_moduleTypes = Some [''living-quarters'']\<rparr>)"
  using alerts_complete[of "\<lparr>r_powerBalance = 35, r_oxygenBalance = 9, r_crewCapacity = 7,
      r_totalArea = 0, r_modules = 4, r_powerConsumption = 55, r_powerGeneration = 100,
      r_oxygenProduction = 15, r_oxygenConsumption = 6,
      r_moduleTypes = Some [''power'', ''airlock'', ''greenhouse'', ''living-quarters'']\<rparr>"]
    alerts_complete[of "\<lparr>r_powerBalance = - 15, r_oxygenBalance = - 5,
          r_crewCapacity = 4, r_totalArea = 12, r_modules = 1, r_powerConsumption = 15,
          r_powerGeneration = 0, r_oxygenProduction = 0, r_oxygenConsumption = 5,
          r_moduleTypes = Some [''living-quarters'']\<rparr>"]
  by (auto simp add: moduleTypes_or_empty_def)

section \<open>Removing a module\<close>

lemma findIndex_None_iff: "findIndex P xs = None \<longleftrightarrow> (\<forall>x \<in> set xs. \<not> P x)"
  by (induction xs) auto

lemma findIndex_first:
  "P m \<Longrightarrow> \<forall>b \<in> set before. \<not> P b \<Longrightarrow> findIndex P (before @ m # after) = Some (length before)"
  by (induction before) auto

lemma removeModule_absent:
  assumes "\<forall>m \<in> set (modules d). m_id m \<noteq> i"
  shows "removeModule i d = d"
proof -
  have "findIndex (\<lambda>m. m_id m = i) (modules d) = None"
    using assms by (simp add: findIndex_None_iff)
  then show ?thesis by (simp add: removeModule_def)
qed

lemma removeModule_first:
  assumes "modules d = before @ m # after" and "m_id m = i"
    and "\<forall>b \<in> set before. m_id b \<noteq> i"
  shows "modules (removeModule i d) = before @ after"
proof -
  have "findIndex (\<lambda>m. m_id m = i) (modules d) = Some (length before)"
    using assms by (simp add: findIndex_first)
  then show ?thesis
    using assms(1) by (simp add: removeModule_def)
qed

lemma removeModule_nextModuleId: "nextModuleId (removeModule i d) = nextModuleId d"
  by (simp add: removeModule_def split: option.splits)

text \<open>
  Claim C10. If some placed module has the given id, \<open>removeModule\<close> removes that module
  (the first one with the id) and keeps every other module, unchanged and in the same
  order; if no placed module has the id, the state is unchanged. The call always returns,
  and it never touches the next-id counter.
\<close>

theorem removeModule_frame:
  "((\<exists>m \<in> set (modules d). m_id m = i) \<longrightarrow>
      (\<exists>before m after. modules d = before @ m # after \<and> m_id m = i \<and>
         (\<forall>b \<in> set before. m_id b \<noteq> i) \<and>
         modules (removeModule i d) = before @ after)) \<and>
   ((\<forall>m \<in> set (modules d). m_id m \<noteq> i) \<longrightarrow> removeModule i d = d) \<and>
   nextModuleId (removeModule i d) = nextModuleId d"
proof (intro conjI impI)
  assume "\<exists>m \<in> set (modules d). m_id m = i"
  then obtain before m after where
    split: "modules d = before @ m # after" "m_id m = i" "\<forall>b \<in> set before. m_id b \<noteq> i"
    using split_list_first_prop[of "modules d" "\<lambda>m. m_id m = i"] by blast
  then have "modules (removeModule i d) = before @ after"
    by (rule removeModule_first)
  with split show "\<exists>before m after. modules d = before @ m # after \<and> m_id m = i \<and>
         (\<forall>b \<in> set before. m_id b \<noteq> i) \<and>
         modules (removeModule i d) = before @ after"
    by blast
next
  assume "\<forall>m \<in> set (modules d). m_id m \<noteq> i"
  then show "removeModule i d = d" by (rule removeModule_absent)
next
  show "nextModuleId (removeModule i d) = nextModuleId d"
    by (rule removeModule_nextModuleId)
qed

theorem removeModule_frame_witness:
  "modules (removeModule 2
     \<lparr>modules =
        [\<lparr>m_id = 1, m_type = ''power'', m_x = 0, m_y = 0, m_dimensions = None\<rparr>,
         \<lparr>m_id = 2, m_type = ''airlock'', m_x = 100, m_y = 0, m_dimensions = None\<rparr>,
         \<lparr>m_id = 3, m_type = ''storage'', m_x = 200, m_y = 0, m_dimensions = None\<rparr>],
      selectedModule = None, nextModuleId = 4\<rparr>) =
     [\<lparr>m_id = 1, m_type = ''power'', m_x = 0, m_y = 0, m_dimensions = None\<rparr>,
      \<lparr>m_id = 3, m_type = ''storage'', m_x = 200, m_y = 0, m_dimensions = None\<rparr>] \<and>
   removeModule 7
     \<lparr>modules =
        [\<lparr>m_id = 1, m_type = ''power'', m_x = 0, m_y = 0, m_dimensions = None\<rparr>,
         \<lparr>m_id = 2, m_type = ''airlock'', m_x = 100, m_y = 0, m_dimensions = None\<rparr>,
         \<lparr>m_id = 3, m_type = ''storage'', m_x = 200, m_y = 0, m_dimensions = None\<rparr>],
      selectedModule = None, nextModuleId = 4\<rparr> =
     \<lparr>modules =
        [\<lparr>m_id = 1, m_type = ''power'', m_x = 0, m_y = 0, m_dimensions = None\<rparr>,
         \<lparr>m_id = 2, m_type = ''airlock'', m_x = 100, m_y = 0, m_dimensions = None\<rparr>,
         \<lparr>m_id = 3, m_type = ''storage'', m_x = 200, m_y = 0, m_dimensions = None\<rparr>],
      selectedModule = None, nextModuleId = 4\<rparr>"
  using removeModule_frame[of
     "\<lparr>modules =
        [\<lparr>m_id = 1, m_type = ''power'', m_x = 0, m_y = 0, m_dimensions = None\<rparr>,
         \<lparr>m_id = 2, m_type = ''airlock'', m_x = 100, m_y = 0, m_dimensions = None\<rparr>,
         \<lparr>m_id = 3, m_type = ''storage'', m_x = 200, m_y = 0, m_dimensions = None\<rparr>],
      selectedModule = None, nextModuleId = 4\<rparr>" 7]
    removeModule_frame[of
     "\<lparr>modules =
        [\<lparr>m_id = 1, m_type = ''power'', m_x = 0, m_y = 0, m_dimensions = None\<rparr>,
         \<lparr>m_id = 2, m_type = ''airlock'', m_x = 100, m_y = 0, m_dimensions = None\<rparr>,
         \<lparr>m_id = 3, m_type = ''storage'', m_x = 200, m_y = 0, m_dimensions = None\<rparr>],
      selectedModule = None, nextModuleId = 4\<rparr>" 2]
  by (simp add: removeModule_def)

section \<open>Restoring a persisted document\<close>

lemma restore_loop_stops:
  assumes "\<forall>g \<in> set good. m_dimensions g \<noteq> None" and "m_dimensions bad = None"
  shows "restore_loop ms (good @ bad # rest) = (ms @ good @ [bad], True)"
  using assms by (induction good arbitrary: ms) auto

lemma restore_loop_all:
  "list_all (\<lambda>m. m_dimensions m \<noteq> None) ds \<Longrightarrow> restore_loop ms ds = (ms @ ds, False)"
  by (induction ds arbitrary: ms) auto

lemma nextModuleId_clearHabitat: "nextModuleId (clearHabitat confirmed d) = nextModuleId d"
  by (simp add: clearHabitat_def)

lemma loadHabitat_no_array: "loadHabitat (Parsed None) confirmed d = clearHabitat confirmed d"
  by (simp add: loadHabitat_def)

text \<open>
  Claim C3, as the code has it. A restore that finds no document, or one that is not JSON,
  leaves the state as it is. A parsed document whose \<open>modules\<close> is absent or not a list
  makes the restore fail only after its clear step: the prior module list is intact when it
  was empty or the user declined the clear, and is emptied otherwise. When the list holds
  an element without dimensions, the elements up to and including that one have been
  appended when the restore fails. No failed restore changes the next-id counter.
\<close>

theorem restore_malformed:
  "loadHabitat Missing confirmed d = d \<and>
   loadHabitat Unparseable confirmed d = d \<and>
   (modules d = [] \<or> \<not> confirmed \<longrightarrow> loadHabitat (Parsed None) confirmed d = d) \<and>
   (modules d \<noteq> [] \<and> confirmed \<longrightarrow> modules (loadHabitat (Parsed None) confirmed d) = []) \<and>
   nextModuleId (loadHabitat (Parsed None) confirmed d) = nextModuleId d \<and>
   ((\<forall>g \<in> set good. m_dimensions g \<noteq> None) \<and> m_dimensions bad = None \<longrightarrow>
      modules (loadHabitat (Parsed (Some (good @ bad # rest))) confirmed d) =
        modules (clearHabitat confirmed d) @ good @ [bad] \<and>
      nextModuleId (loadHabitat (Parsed (Some (good @ bad # rest))) confirmed d) =
        nextModuleId d)"
proof (intro conjI impI)
  show "loadHabitat Missing confirmed d = d" by (simp add: loadHabitat_def)
  show "loadHabitat Unparseable confirmed d = d" by (simp add: loadHabitat_def)
  show "loadHabitat (Parsed None) confirmed d = d" if "modules d = [] \<or> \<not> confirmed"
    using that by (auto simp add: loadHabitat_no_array clearHabitat_def)
  show "modules (loadHabitat (Parsed None) confirmed d) = []" if "modules d \<noteq> [] \<and> confirmed"
    using that by (simp add: loadHabitat_no_array clearHabitat_def)
  show "nextModuleId (loadHabitat (Parsed None) confirmed d) = nextModuleId d"
    by (simp add: loadHabitat_no_array nextModuleId_clearHabitat)
next
  assume bad: "(\<forall>g \<in> set good. m_dimensions g \<noteq> None) \<and> m_dimensions bad = None"
  then have loop: "restore_loop (modules (clearHabitat confirmed d)) (good @ bad # rest) =
      (modules (clearHabitat confirmed d) @ good @ [bad], True)"
    by (simp add: restore_loop_stops)
  show "modules (loadHabitat (Parsed (Some (good @ bad # rest))) confirmed d) =
        modules (clearHabitat confirmed d) @ good @ [bad]"
    using loop by (simp add: loadHabitat_def Let_def)
  show "nextModuleId (loadHabitat (Parsed (Some (good @ bad # rest))) confirmed d) =
        nextModuleId d"
    using loop by (simp add: loadHabitat_def Let_def nextModuleId_clearHabitat)
qed

theorem restore_malformed_witness:
  "loadHabitat (Parsed None) False
     \<lparr>modules = [\<lparr>m_id = 1, m_type = ''power'', m_x = 0, m_y = 0,
                   m_dimensions = Some \<lparr>width = 100, height = 100\<rparr>\<rparr>],
      selectedModule = None, nextModuleId = 2\<rparr> =
     \<lparr>modules = [\<lparr>m_id = 1, m_type = ''power'', m_x = 0, m_y = 0,
                   m_dimensions = Some \<lparr>width = 100, height = 100\<rparr>\<rparr>],
      selectedModule = None, nextModuleId = 2\<rparr> \<and>
   modules (loadHabitat (Parsed None) True
     \<lparr>modules = [\<lparr>m_id = 1, m_type = ''power'', m_x = 0, m_y = 0,
                   m_dimensions = Some \<lparr>width = 100, height = 100\<rparr>\<rparr>],
      selectedModule = None, nextModuleId = 2\<rparr>) = [] \<and>
   modules (loadHabitat
     (Parsed (Some [\<lparr>m_id = 5, m_type = ''power'', m_x = 0, m_y = 0, m_dimensions = None\<rparr>,
                    \<lparr>m_id = 6, m_type = ''airlock'', m_x = 0, m_y = 200, m_dimensions = None\<rparr>]))
     True init) =
     [\<lparr>m_id = 5, m_type = ''power'', m_x = 0, m_y = 0, m_dimensions = None\<rparr>] \<and>
   nextModuleId (loadHabitat
     (Parsed (Some [\<lparr>m_id = 5, m_type = ''power'', m_x = 0, m_y = 0, m_dimensions = None\<rparr>,
                    \<lparr>m_id = 6, m_type = ''airlock'', m_x = 0, m_y = 200, m_dimensions = None\<rparr>]))
     True init) = 1"
  using restore_malformed[of False
     "\<lparr>modules = [\<lparr>m_id = 1, m_type = ''power'', m_x = 0, m_y = 0,
                   m_dimensions = Some \<lparr>width = 100, height = 100\<rparr>\<rparr>],
      selectedModule = None, nextModuleId = 2\<rparr>" "[]" undefined "[]"]
    restore_malformed[of True
     "\<lparr>modules = [\<lparr>m_id = 1, m_type = ''power'', m_x = 0, m_y = 0,
                   m_dimensions = Some \<lparr>width = 100, height = 100\<rparr>\<rparr>],
      selectedModule = None, nextModuleId = 2\<rparr>" "[]" undefined "[]"]
    restore_malformed[of True init "[]"
      "\<lparr>m_id = 5, m_type = ''power'', m_x = 0, m_y = 0, m_dimensions = None\<rparr>"
      "[\<lparr>m_id = 6, m_type = ''airlock'', m_x = 0, m_y = 200, m_dimensions = None\<rparr>]"]
  by (simp add: init_def clearHabitat_def)

text \<open>
  The claim as stated fails: with one module placed and the clear confirmed, restoring a
  document that has no \<open>modules\<close> list leaves a module list that differs from the
  prior one.
\<close>

theorem restore_clears_before_failing:
  "modules (loadHabitat (Parsed None) True
     \<lparr>modules = [\<lparr>m_id = 1, m_type = ''power'', m_x = 0, m_y = 0,
                   m_dimensions = Some \<lparr>width = 100, height = 100\<rparr>\<rparr>],
      selectedModule = None, nextModuleId = 2\<rparr>) \<noteq>
   modules
     \<lparr>modules = [\<lparr>m_id = 1, m_type = ''power'', m_x = 0, m_y = 0,
                   m_dimensions = Some \<lparr>width = 100, height = 100\<rparr>\<rparr>],
      selectedModule = None, nextModuleId = 2\<rparr>"
  by (simp add: loadHabitat_def clearHabitat_def)

section \<open>The next-id counter\<close>

lemma addModule_cases:
  assumes "addModule t x y c d = Inr d'"
  shows "d' = d \<or>
         (\<exists>m. modules d' = modules d @ [m] \<and> m_id m = nextModuleId d \<and>
              nextModuleId d' = dadd (nextModuleId d) 1)"
  using assms
  by (auto simp add: addModule_def Let_def split: lookup.splits sum.splits if_splits)

lemma exec_Add_cases:
  "exec (Add t x y c) d = d \<or>
   (\<exists>m. modules (exec (Add t x y c) d) = modules d @ [m] \<and> m_id m = nextModuleId d \<and>
        nextModuleId (exec (Add t x y c) d) = dadd (nextModuleId d) 1)"
proof (cases "addModule t x y c d")
  case (Inl e)
  then show ?thesis by simp
next
  case (Inr d')
  then show ?thesis using addModule_cases[OF Inr] by auto
qed

lemma set_modules_removeModule: "set (modules (removeModule i d)) \<subseteq> set (modules d)"
proof (cases "findIndex (\<lambda>m. m_id m = i) (modules d)")
  case None
  then show ?thesis by (simp add: removeModule_def)
next
  case (Some k)
  have "set (take k (modules d)) \<subseteq> set (modules d)"
    and "set (drop (Suc k) (modules d)) \<subseteq> set (modules d)"
    by (rule set_take_subset, rule set_drop_subset)
  then show ?thesis using Some by (simp add: removeModule_def)
qed

lemma set_modules_clearHabitat: "set (modules (clearHabitat confirmed d)) \<subseteq> set (modules d)"
  by (simp add: clearHabitat_def)

lemma ids_belowI:
  assumes "\<And>m. m \<in> set (modules d) \<Longrightarrow> 0 \<le> m_id m \<and> m_id m < nextModuleId d"
    and "0 \<le> nextModuleId d" and "nextModuleId d \<le> C"
  shows "ids_below C d"
  using assms by (simp add: ids_below_def)

lemma ids_below_subset:
  assumes "ids_below C d" and "set (modules d') \<subseteq> set (modules d)"
    and "nextModuleId d' = nextModuleId d"
  shows "ids_below (C + 1) d'"
  using assms by (auto simp add: ids_below_def)

lemma loadHabitat_ids_below:
  assumes inv: "ids_below C d" and "renderable (Restore s confirmed)"
    and "ids_within M (Restore s confirmed)" and "M < C" and "C < 9007199254740992"
  shows "ids_below (C + 1) (loadHabitat s confirmed d)"
proof (cases s)
  case Missing
  then show ?thesis using inv by (auto simp add: loadHabitat_def ids_below_def)
next
  case Unparseable
  then show ?thesis using inv by (auto simp add: loadHabitat_def ids_below_def)
next
  case (Parsed doc)
  have cleared: "ids_below C (clearHabitat confirmed d)"
    using inv by (auto simp add: clearHabitat_def ids_below_def)
  show ?thesis
  proof (cases doc)
    case None
    then show ?thesis
      using Parsed cleared by (auto simp add: loadHabitat_no_array ids_below_def)
  next
    case (Some ds)
    define d1 where "d1 = clearHabitat confirmed d"
    define ms where "ms = modules d1 @ ds"
    have loop: "restore_loop (modules d1) ds = (ms, False)"
      using assms(2) Parsed Some by (simp add: restore_loop_all ms_def)
    have doc: "0 \<le> m_id m \<and> m_id m \<le> M" if "m \<in> set ds" for m
      using assms(3) Parsed Some that by (auto simp add: list_all_iff)
    have ids: "0 \<le> m_id m \<and> m_id m < C" if "m \<in> set ms" for m
    proof (cases "m \<in> set ds")
      case True
      then show ?thesis using doc[of m] assms(4) by simp
    next
      case False
      then have "m \<in> set (modules d1)" using that by (simp add: ms_def)
      then have "0 \<le> m_id m \<and> m_id m < nextModuleId d1" and "nextModuleId d1 \<le> C"
        using cleared by (simp_all add: d1_def ids_below_def)
      then show ?thesis by simp
    qed
    show ?thesis
    proof (cases "ms = []")
      case True
      then show ?thesis
        using Parsed Some loop cleared
        by (auto simp add: loadHabitat_def Let_def d1_def[symmetric] ids_below_def)
    next
      case False
      define top where "top = Max (m_id ` set ms)"
      have "top \<in> m_id ` set ms"
        unfolding top_def using False by (intro Max_in) auto
      then have top: "0 \<le> top" "top < C" using ids by auto
      have ge: "m_id m \<le> top" if "m \<in> set ms" for m
        unfolding top_def using that by (intro Max_ge) auto
      have next_id: "dadd top 1 = top + 1"
        using top assms(5) by (intro dadd_exact) simp
      have result: "loadHabitat s confirmed d = d1\<lparr>modules := ms, nextModuleId := top + 1\<rparr>"
        using Parsed Some loop False
        by (simp add: loadHabitat_def Let_def d1_def[symmetric] top_def[symmetric] next_id)
      show ?thesis
        unfolding result using ids ge top by (intro ids_belowI) (auto intro: le_less_trans)
    qed
  qed
qed

lemma exec_ids_below:
  assumes inv: "ids_below C d" and "renderable a" and "ids_within M a"
    and "M < C" and "C < 9007199254740992"
  shows "ids_below (C + 1) (exec a d)"
proof (cases a)
  case (Add t x y c)
  have exact: "dadd (nextModuleId d) 1 = nextModuleId d + 1"
    using inv assms(5) by (intro dadd_exact) (simp add: ids_below_def)
  from exec_Add_cases[of t x y c d] show ?thesis
  proof
    assume "exec (Add t x y c) d = d"
    then show ?thesis using Add inv by (simp add: ids_below_def)
  next
    assume "\<exists>m. modules (exec (Add t x y c) d) = modules d @ [m] \<and>
      m_id m = nextModuleId d \<and> nextModuleId (exec (Add t x y c) d) = dadd (nextModuleId d) 1"
    then obtain m where m: "modules (exec a d) = modules d @ [m]" "m_id m = nextModuleId d"
      "nextModuleId (exec a d) = nextModuleId d + 1"
      using Add exact by auto
    have old: "0 \<le> m_id k \<and> m_id k < nextModuleId d" if "k \<in> set (modules d)" for k
      using inv that by (simp add: ids_below_def)
    have counter: "0 \<le> nextModuleId d" "nextModuleId d \<le> C"
      using inv by (simp_all add: ids_below_def)
    show ?thesis
    proof (rule ids_belowI)
      fix k
      assume "k \<in> set (modules (exec a d))"
      then have "k \<in> set (modules d) \<or> k = m" by (auto simp add: m(1))
      then show "0 \<le> m_id k \<and> m_id k < nextModuleId (exec a d)"
        using old[of k] m(2,3) counter by auto
    next
      show "0 \<le> nextModuleId (exec a d)" using m(3) counter by simp
      show "nextModuleId (exec a d) \<le> C + 1" using m(3) counter by simp
    qed
  qed
next
  case (Remove i)
  then show ?thesis
    using ids_below_subset[OF inv set_modules_removeModule[of i d]]
    by (simp add: removeModule_nextModuleId)
next
  case (Clear confirmed)
  then show ?thesis
    using ids_below_subset[OF inv set_modules_clearHabitat[of confirmed d]]
    by (simp add: nextModuleId_clearHabitat)
next
  case (Restore s confirmed)
  then show ?thesis
    using loadHabitat_ids_below[OF inv _ _ assms(4,5), of s confirmed] assms(2,3) by simp
qed

lemma not_restore_ok: "\<not> is_restore a \<Longrightarrow> renderable a \<and> ids_within M a"
  by (cases a) simp_all

lemma exec_counter_mono:
  assumes "ids_below C d" and "C < 9007199254740992" and "\<not> is_restore a"
  shows "nextModuleId d \<le> nextModuleId (exec a d)"
proof (cases a)
  case (Add t x y c)
  have "dadd (nextModuleId d) 1 = nextModuleId d + 1"
    using assms(1,2) by (intro dadd_exact) (simp add: ids_below_def)
  then show ?thesis using Add exec_Add_cases[of t x y c d] by auto
next
  case (Remove i)
  then show ?thesis by (simp add: removeModule_nextModuleId)
next
  case (Clear confirmed)
  then show ?thesis by (simp add: nextModuleId_clearHabitat)
next
  case (Restore s confirmed)
  with assms(3) show ?thesis by simp
qed

lemma run_ids_below:
  assumes "ids_below C d" and "\<forall>a \<in> set ops. renderable a \<and> ids_within M a"
    and "M < C" and "C + int (length ops) \<le> 9007199254740992"
  shows "ids_below (C + int (length ops)) (run d ops)"
  using assms
proof (induction ops arbitrary: d C)
  case Nil
  then show ?case by simp
next
  case (Cons a ops)
  have "ids_below (C + 1) (exec a d)"
    using Cons.prems by (intro exec_ids_below[where M = M]) simp_all
  then have "ids_below (C + 1 + int (length ops)) (run (exec a d) ops)"
    using Cons.prems by (intro Cons.IH) simp_all
  then show ?case by (simp add: add.assoc add.commute)
qed

lemma run_counter_mono:
  assumes "ids_below C d" and "\<forall>a \<in> set ops. \<not> is_restore a"
    and "C + int (length ops) \<le> 9007199254740992"
  shows "nextModuleId d \<le> nextModuleId (run d ops)"
  using assms
proof (induction ops arbitrary: d C)
  case Nil
  then show ?case by simp
next
  case (Cons a ops)
  have small: "C < 9007199254740992" using Cons.prems(3) by simp
  have step: "ids_below (C + 1) (exec a d)"
    using Cons.prems small not_restore_ok[of a "C - 1"]
    by (intro exec_ids_below[where M = "C - 1"]) simp_all
  have "nextModuleId d \<le> nextModuleId (exec a d)"
    using Cons.prems small by (intro exec_counter_mono[where C = C]) simp_all
  also have "\<dots> \<le> nextModuleId (run (exec a d) ops)"
    using Cons.prems step by (intro Cons.IH[where C = "C + 1"]) simp_all
  finally show ?case by simp
qed

lemma ids_held_Cons: "ids_held (d # ds) = m_id ` set (modules d) \<union> ids_held ds"
  by (simp add: ids_held_def)

lemma lineage_below_counter:
  assumes "ids_below C d" and "\<forall>a \<in> set ops. \<not> is_restore a"
    and "C + int (length ops) \<le> 9007199254740992"
  shows "\<forall>i \<in> ids_held (trace d ops). i < nextModuleId (run d ops)"
  using assms
proof (induction ops arbitrary: d C)
  case Nil
  then show ?case by (auto simp add: ids_held_def ids_below_def)
next
  case (Cons a ops)
  have small: "C < 9007199254740992" using Cons.prems(3) by simp
  have step: "ids_below (C + 1) (exec a d)"
    using Cons.prems small not_restore_ok[of a "C - 1"]
    by (intro exec_ids_below[where M = "C - 1"]) simp_all
  have rest: "\<forall>i \<in> ids_held (trace (exec a d) ops). i < nextModuleId (run (exec a d) ops)"
    using Cons.prems step by (intro Cons.IH[where C = "C + 1"]) simp_all
  have "nextModuleId d \<le> nextModuleId (run d (a # ops))"
    using Cons.prems by (rule run_counter_mono)
  then have here: "\<forall>m \<in> set (modules d). m_id m < nextModuleId (run d (a # ops))"
    using Cons.prems(1) by (fastforce simp add: ids_below_def)
  show ?case using here rest by (auto simp add: ids_held_Cons)
qed

lemma run_append: "run d (pre @ post) = run (run d pre) post"
  by (induction pre arbitrary: d) simp_all

text \<open>
  Claim C4, as the code has it. Take any sequence of add, remove, clear and restore
  operations from the initial state, the restored documents giving every module its
  dimensions and an id between 0 and \<open>M\<close>, with \<open>M\<close> plus the number of operations below
  \<open>2^53\<close>. Split it anywhere such that no restore follows the split. Then the next-id
  counter of the last state is strictly greater than every id held by a module in any
  state from the split on, and a module that a further placement creates gets an id that
  none of these states held. Without a restore the split can be put at the start: the
  counter exceeds every id the lineage ever held, and after removing the module with id 3
  no later placement assigns 3 again. With restores it can be put after the last one: the
  counter exceeds every id held since that restore.
\<close>

theorem next_id_invariant:
  assumes "\<forall>a \<in> set (pre @ post). renderable a \<and> ids_within M a"
    and "\<forall>a \<in> set post. \<not> is_restore a"
    and "0 \<le> M" and "M + int (length (pre @ post)) < 2 ^ 53"
  shows "(\<forall>i \<in> ids_held (trace (run init pre) post). i < nextModuleId (run init (pre @ post))) \<and>
         (\<forall>m \<in> set (modules (exec (Add t x y c) (run init (pre @ post)))).
             m \<notin> set (modules (run init (pre @ post))) \<longrightarrow>
             m_id m \<notin> ids_held (trace (run init pre) post))"
proof (intro conjI)
  have bound: "M + 1 + int (length pre) + int (length post) \<le> 9007199254740992"
    using assms(4) by simp
  have start: "ids_below (M + 1) init"
    using assms(3) by (simp add: ids_below_def init_def)
  have mid: "ids_below (M + 1 + int (length pre)) (run init pre)"
    using start assms(1) bound by (intro run_ids_below[where M = M]) simp_all
  show below: "\<forall>i \<in> ids_held (trace (run init pre) post). i < nextModuleId (run init (pre @ post))"
    unfolding run_append using mid assms(2) bound by (rule lineage_below_counter)
  show "\<forall>m \<in> set (modules (exec (Add t x y c) (run init (pre @ post)))).
          m \<notin> set (modules (run init (pre @ post))) \<longrightarrow>
          m_id m \<notin> ids_held (trace (run init pre) post)"
  proof (intro ballI impI)
    fix m
    assume new: "m \<in> set (modules (exec (Add t x y c) (run init (pre @ post))))"
      "m \<notin> set (modules (run init (pre @ post)))"
    from exec_Add_cases[of t x y c "run init (pre @ post)"] new
    have "m_id m = nextModuleId (run init (pre @ post))" by auto
    then show "m_id m \<notin> ids_held (trace (run init pre) post)" using below by auto
  qed
qed

theorem next_id_invariant_witness:
  "run init ([] @ (placements @ [Remove 3])) = state_of [power_at 1 0, power_at 2 100] 4 \<and>
   ids_held (trace (run init []) (placements @ [Remove 3])) = {1, 2, 3} \<and>
   exec (Add ''power'' 250 50 surface) (run init ([] @ (placements @ [Remove 3]))) =
     state_of [power_at 1 0, power_at 2 100, power_at 4 200] 5 \<and>
   run init ((placements @ [Remove 3, saved_first]) @
       [Add ''power'' 150 50 surface, Add ''power'' 250 50 surface]) =
     state_of [power_at 1 0, power_at 2 100, power_at 3 200] 4 \<and>
   ids_held (trace (run init (placements @ [Remove 3, saved_first]))
       [Add ''power'' 150 50 surface, Add ''power'' 250 50 surface]) = {1, 2, 3} \<and>
   list_all (\<lambda>a. renderable a \<and> ids_within 1 a)
     ((placements @ [Remove 3, saved_first]) @
       [Add ''power'' 150 50 surface, Add ''power'' 250 50 surface]) \<and>
   \<not> list_ex is_restore (placements @ [Remove 3]) \<and>
   \<not> list_ex is_restore [Add ''power'' 150 50 surface, Add ''power'' 250 50 surface]"
proof -
  have a: "run init ([] @ (placements @ [Remove 3])) = state_of [power_at 1 0, power_at 2 100] 4"
    by (simp add: placements_def saved_first_def init_def addModule_def
          validateModulePlacement_def getModuleType_power dimensions_power modulesOverlap_def
          rect_of_def Let_def removeModule_def loadHabitat_def clearHabitat_def surface_def
          power_at_def state_of_def dadd_exact dsub_exact)
  have b: "ids_held (trace (run init []) (placements @ [Remove 3])) = {1, 2, 3}"
    by (auto simp add: ids_held_def placements_def saved_first_def init_def addModule_def
          validateModulePlacement_def getModuleType_power dimensions_power modulesOverlap_def
          rect_of_def Let_def removeModule_def loadHabitat_def clearHabitat_def surface_def
          power_at_def state_of_def dadd_exact dsub_exact)
  have c: "exec (Add ''power'' 250 50 surface) (run init ([] @ (placements @ [Remove 3]))) =
     state_of [power_at 1 0, power_at 2 100, power_at 4 200] 5"
    by (simp add: placements_def saved_first_def init_def addModule_def
          validateModulePlacement_def getModuleType_power dimensions_power modulesOverlap_def
          rect_of_def Let_def removeModule_def loadHabitat_def clearHabitat_def surface_def
          power_at_def state_of_def dadd_exact dsub_exact)
  have d: "run init ((placements @ [Remove 3, saved_first]) @
       [Add ''power'' 150 50 surface, Add ''power'' 250 50 surface]) =
     state_of [power_at 1 0, power_at 2 100, power_at 3 200] 4"
    by (simp add: placements_def saved_first_def init_def addModule_def
          validateModulePlacement_def getModuleType_power dimensions_power modulesOverlap_def
          rect_of_def Let_def removeModule_def loadHabitat_def clearHabitat_def surface_def
          power_at_def state_of_def dadd_exact dsub_exact)
  have e: "ids_held (trace (run init (placements @ [Remove 3, saved_first]))
       [Add ''power'' 150 50 surface, Add ''power'' 250 50 surface]) = {1, 2, 3}"
    by (auto simp add: ids_held_def placements_def saved_first_def init_def addModule_def
          validateModulePlacement_def getModuleType_power dimensions_power modulesOverlap_def
          rect_of_def Let_def removeModule_def loadHabitat_def clearHabitat_def surface_def
          power_at_def state_of_def dadd_exact dsub_exact)
  have f: "list_all (\<lambda>a. renderable a \<and> ids_within 1 a)
     ((placements @ [Remove 3, saved_first]) @
       [Add ''power'' 150 50 surface, Add ''power'' 250 50 surface])"
    by (simp add: placements_def saved_first_def power_at_def)
  have g: "\<not> list_ex is_restore (placements @ [Remove 3])"
    by (simp add: placements_def)
  have h: "\<not> list_ex is_restore [Add ''power'' 150 50 surface, Add ''power'' 250 50 surface]"
    by simp
  show ?thesis
    using a b c d e f g h
      next_id_invariant[of "[]" "placements @ [Remove 3]" 0 "''power''" 250 50 surface]
      next_id_invariant[of "placements @ [Remove 3, saved_first]"
        "[Add ''power'' 150 50 surface, Add ''power'' 250 50 surface]" 1
        "''power''" 250 50 surface]
    by blast
qed

text \<open>
  The claim as stated fails once a restore is among the operations. Three power modules are
  placed (ids 1, 2, 3), the module with id 3 is removed, and a document saved after the
  first placement is restored: the counter is 2, below the id 3 that the lineage held, and
  the second placement after the restore assigns the id 3 again.
\<close>

theorem restore_reseeds_counter:
  "3 \<in> ids_held (trace init (placements @ [Remove 3, saved_first])) \<and>
   run init (placements @ [Remove 3, saved_first]) = state_of [power_at 1 0] 2 \<and>
   run init (placements @ [Remove 3]) = state_of [power_at 1 0, power_at 2 100] 4 \<and>
   run init (placements @ [Remove 3, saved_first,
        Add ''power'' 150 50 surface, Add ''power'' 250 50 surface]) =
     state_of [power_at 1 0, power_at 2 100, power_at 3 200] 4"
proof -
  have a: "3 \<in> ids_held (trace init (placements @ [Remove 3, saved_first]))"
    by (auto simp add: ids_held_def placements_def saved_first_def init_def addModule_def
          validateModulePlacement_def getModuleType_power dimensions_power modulesOverlap_def
          rect_of_def Let_def removeModule_def loadHabitat_def clearHabitat_def surface_def
          power_at_def state_of_def dadd_exact dsub_exact)
  have b: "run init (placements @ [Remove 3, saved_first]) = state_of [power_at 1 0] 2"
    by (simp add: placements_def saved_first_def init_def addModule_def
          validateModulePlacement_def getModuleType_power dimensions_power modulesOverlap_def
          rect_of_def Let_def removeModule_def loadHabitat_def clearHabitat_def surface_def
          power_at_def state_of_def dadd_exact dsub_exact)
  have c: "run init (placements @ [Remove 3]) = state_of [power_at 1 0, power_at 2 100] 4"
    by (simp add: placements_def saved_first_def init_def addModule_def
          validateModulePlacement_def getModuleType_power dimensions_power modulesOverlap_def
          rect_of_def Let_def removeModule_def loadHabitat_def clearHabitat_def surface_def
          power_at_def state_of_def dadd_exact dsub_exact)
  have d: "run init (placements @ [Remove 3, saved_first,
        Add ''power'' 150 50 surface, Add ''power'' 250 50 surface]) =
     state_of [power_at 1 0, power_at 2 100, power_at 3 200] 4"
    by (simp add: placements_def saved_first_def init_def addModule_def
          validateModulePlacement_def getModuleType_power dimensions_power modulesOverlap_def
          rect_of_def Let_def removeModule_def loadHabitat_def clearHabitat_def surface_def
          power_at_def state_of_def dadd_exact dsub_exact)
  show ?thesis using a b c d by blast
qed

text \<open>
  The bound in the theorem is needed: the counter is a double. After a restore of a module
  with id \<open>2^53 - 1\<close> the counter is \<open>2^53\<close> and stays there, so the next two placements
  both get the id \<open>2^53\<close>.
\<close>

lemma counter_sticks:
  "run init [Restore (Parsed (Some [power_at 9007199254740991 0])) True,
             Add ''power'' 150 50 surface, Add ''power'' 250 50 surface] =
     state_of [power_at 9007199254740991 0, power_at 9007199254740992 100,
               power_at 9007199254740992 200] 9007199254740992"
  by (simp add: init_def addModule_def validateModulePlacement_def getModuleType_power
      dimensions_power modulesOverlap_def rect_of_def Let_def loadHabitat_def
      clearHabitat_def surface_def power_at_def state_of_def dadd_exact dsub_exact
      dadd_rounds)

section \<open>Aggregation\<close>

lemma fadd_zero_right: "fadd a 0 = a"
  by (simp add: fadd_def)

lemma getModuleType_unknown:
  "m_type m \<notin> set getAllModuleTypes \<Longrightarrow>
     getModuleType (m_type m) = Null \<or> getModuleType (m_type m) = Inherited"
  using getModuleType_Profile_iff[of "m_type m"] by (cases "getModuleType (m_type m)") auto

lemma accumulate_unknown:
  assumes "m_type m \<notin> set getAllModuleTypes"
  shows "accumulate t m = t"
  using getModuleType_unknown[OF assms]
  by (auto simp add: accumulate_def fadd_zero_right)

lemma foldl_accumulate_known:
  "foldl accumulate t ms =
     foldl accumulate t (filter (\<lambda>m. m_type m \<in> set getAllModuleTypes) ms)"
  by (induction ms arbitrary: t) (simp_all add: accumulate_unknown)

lemma airlock_known: "''airlock'' \<in> set getAllModuleTypes"
  by (simp add: getAllModuleTypes_def moduleTypes_def)

lemma power_known: "''power'' \<in> set getAllModuleTypes"
  by (simp add: getAllModuleTypes_def moduleTypes_def)

lemma alien_unknown: "''alien'' \<notin> set getAllModuleTypes"
  by (simp add: getAllModuleTypes_def moduleTypes_def)

lemma known_type_present:
  "k \<in> set getAllModuleTypes \<Longrightarrow>
     k \<in> set (map m_type (filter (\<lambda>m. m_type m \<in> set getAllModuleTypes) ms)) \<longleftrightarrow>
     k \<in> set (map m_type ms)"
  by auto

lemma getSafetyAlerts_cong:
  assumes "r_powerBalance r = r_powerBalance r'"
    and "r_oxygenBalance r = r_oxygenBalance r'"
    and "r_crewCapacity r = r_crewCapacity r'"
    and "''airlock'' \<in> set (moduleTypes_or_empty r) \<longleftrightarrow> ''airlock'' \<in> set (moduleTypes_or_empty r')"
    and "''power'' \<in> set (moduleTypes_or_empty r) \<longleftrightarrow> ''power'' \<in> set (moduleTypes_or_empty r')"
  shows "getSafetyAlerts r = getSafetyAlerts r'"
  using assms by (simp add: getSafetyAlerts_def Let_def)

lemma calculateTotalResources_known:
  "calculateTotalResources ms =
     (calculateTotalResources (filter (\<lambda>m. m_type m \<in> set getAllModuleTypes) ms))
       \<lparr>r_modules := int (length ms)\<rparr>"
  using foldl_accumulate_known[of zero_totals ms]
  by (simp add: calculateTotalResources_def Let_def)

lemma alerts_known:
  "getSafetyAlerts (updateResources ms) =
     getSafetyAlerts (updateResources (filter (\<lambda>m. m_type m \<in> set getAllModuleTypes) ms))"
proof (rule getSafetyAlerts_cong)
  let ?ks = "filter (\<lambda>m. m_type m \<in> set getAllModuleTypes) ms"
  have eq: "calculateTotalResources ms =
      (calculateTotalResources ?ks)\<lparr>r_modules := int (length ms)\<rparr>"
    by (rule calculateTotalResources_known)
  show "r_powerBalance (updateResources ms) = r_powerBalance (updateResources ?ks)"
    by (simp add: updateResources_def eq)
  show "r_oxygenBalance (updateResources ms) = r_oxygenBalance (updateResources ?ks)"
    by (simp add: updateResources_def eq)
  show "r_crewCapacity (updateResources ms) = r_crewCapacity (updateResources ?ks)"
    by (simp add: updateResources_def eq)
  show "''airlock'' \<in> set (moduleTypes_or_empty (updateResources ms)) \<longleftrightarrow>
        ''airlock'' \<in> set (moduleTypes_or_empty (updateResources ?ks))"
    using known_type_present[OF airlock_known, of ms]
    by (simp add: updateResources_def moduleTypes_or_empty_def)
  show "''power'' \<in> set (moduleTypes_or_empty (updateResources ms)) \<longleftrightarrow>
        ''power'' \<in> set (moduleTypes_or_empty (updateResources ?ks))"
    using known_type_present[OF power_known, of ms]
    by (simp add: updateResources_def moduleTypes_or_empty_def)
qed

text \<open>
  Claim C2, as the code has it. Aggregation is one pass over the module list (a left fold
  of \<open>accumulate\<close>). A module whose type is not in the catalog leaves all six accumulated
  fields as they are, so the aggregate is that of the modules of known type, but for the
  module count. The snapshot's \<open>moduleTypes\<close> holds the type of every module, the unknown
  ones included; since the presence checks ask only for the airlock and the power type,
  the alerts are those of the modules of known type.
\<close>

theorem unknown_types_in_aggregation:
  "(m_type m \<notin> set getAllModuleTypes \<longrightarrow> accumulate t m = t) \<and>
   calculateTotalResources ms =
     (calculateTotalResources (filter (\<lambda>m. m_type m \<in> set getAllModuleTypes) ms))
       \<lparr>r_modules := int (length ms)\<rparr> \<and>
   r_moduleTypes (updateResources ms) = Some (map m_type ms) \<and>
   getSafetyAlerts (updateResources ms) =
     getSafetyAlerts (updateResources (filter (\<lambda>m. m_type m \<in> set getAllModuleTypes) ms))"
proof (intro conjI impI)
  show "accumulate t m = t" if "m_type m \<notin> set getAllModuleTypes"
    using that by (rule accumulate_unknown)
  show "calculateTotalResources ms =
     (calculateTotalResources (filter (\<lambda>m. m_type m \<in> set getAllModuleTypes) ms))
       \<lparr>r_modules := int (length ms)\<rparr>"
    by (rule calculateTotalResources_known)
  show "r_moduleTypes (updateResources ms) = Some (map m_type ms)"
    by (simp add: updateResources_def)
  show "getSafetyAlerts (updateResources ms) =
     getSafetyAlerts (updateResources (filter (\<lambda>m. m_type m \<in> set getAllModuleTypes) ms))"
    by (rule alerts_known)
qed

theorem unknown_types_in_aggregation_witness:
  "of_type ''alien'' \<notin> set (filter (\<lambda>m. m_type m \<in> set getAllModuleTypes)
       [of_type ''power'', of_type ''alien'', of_type ''toString'']) \<and>
   accumulate zero_totals (of_type ''alien'') = zero_totals \<and>
   accumulate zero_totals (of_type ''toString'') = zero_totals \<and>
   calculateTotalResources [of_type ''power'', of_type ''alien'', of_type ''toString''] =
     (calculateTotalResources [of_type ''power''])\<lparr>r_modules := 3\<rparr> \<and>
   getSafetyAlerts (updateResources [of_type ''power'', of_type ''alien'', of_type ''toString'']) =
     getSafetyAlerts (updateResources [of_type ''power''])"
proof -
  have alien: "m_type (of_type ''alien'') \<notin> set getAllModuleTypes"
    by (simp add: of_type_def getAllModuleTypes_def moduleTypes_def)
  have inherited: "m_type (of_type ''toString'') \<notin> set getAllModuleTypes"
    by (simp add: of_type_def getAllModuleTypes_def moduleTypes_def)
  have power: "m_type (of_type ''power'') \<in> set getAllModuleTypes"
    by (simp add: of_type_def getAllModuleTypes_def moduleTypes_def)
  have known: "filter (\<lambda>m. m_type m \<in> set getAllModuleTypes)
       [of_type ''power'', of_type ''alien'', of_type ''toString''] = [of_type ''power'']"
    using alien inherited power by simp
  have differ: "of_type ''alien'' \<noteq> of_type ''power''"
    by (simp add: of_type_def)
  show ?thesis
    using alien inherited known differ
      unknown_types_in_aggregation[of "of_type ''alien''" zero_totals
        "[of_type ''power'', of_type ''alien'', of_type ''toString'']"]
      unknown_types_in_aggregation[of "of_type ''toString''" zero_totals "[]"]
    by simp
qed

text \<open>
  The claim as stated fails: the snapshot built for a single module of the unknown type
  \<open>alien\<close> lists that type in its \<open>moduleTypes\<close>.
\<close>

theorem unknown_type_is_listed:
  "''alien'' \<notin> set getAllModuleTypes \<and>
   r_moduleTypes (updateResources [of_type ''alien'']) = Some [''alien'']"
  by (simp add: alien_unknown updateResources_def of_type_def)

lemma accumulate_adds:
  "totalPowerConsumption (accumulate t m) =
     totalPowerConsumption t + totalPowerConsumption (accumulate zero_totals m)"
  "totalPowerGeneration (accumulate t m) =
     totalPowerGeneration t + totalPowerGeneration (accumulate zero_totals m)"
  "totalOxygenProduction (accumulate t m) =
     totalOxygenProduction t + totalOxygenProduction (accumulate zero_totals m)"
  "totalOxygenConsumption (accumulate t m) =
     totalOxygenConsumption t + totalOxygenConsumption (accumulate zero_totals m)"
  "totalCrewCapacity (accumulate t m) =
     totalCrewCapacity t + totalCrewCapacity (accumulate zero_totals m)"
  by (cases "getModuleType (m_type m)"; simp add: accumulate_def zero_totals_def)+

lemma foldl_accumulate_sums:
  "totalPowerConsumption (foldl accumulate t ms) =
     totalPowerConsumption t + (\<Sum>m\<leftarrow>ms. totalPowerConsumption (accumulate zero_totals m))"
  "totalPowerGeneration (foldl accumulate t ms) =
     totalPowerGeneration t + (\<Sum>m\<leftarrow>ms. totalPowerGeneration (accumulate zero_totals m))"
  "totalOxygenProduction (foldl accumulate t ms) =
     totalOxygenProduction t + (\<Sum>m\<leftarrow>ms. totalOxygenProduction (accumulate zero_totals m))"
  "totalOxygenConsumption (foldl accumulate t ms) =
     totalOxygenConsumption t + (\<Sum>m\<leftarrow>ms. totalOxygenConsumption (accumulate zero_totals m))"
  "totalCrewCapacity (foldl accumulate t ms) =
     totalCrewCapacity t + (\<Sum>m\<leftarrow>ms. totalCrewCapacity (accumulate zero_totals m))"
proof (induction ms arbitrary: t)
  case Nil
  {
    case 1 show ?case by simp
  next
    case 2 show ?case by simp
  next
    case 3 show ?case by simp
  next
    case 4 show ?case by simp
  next
    case 5 show ?case by simp
  }
next
  case (Cons m ms)
  {
    case 1 show ?case by (simp add: Cons.IH(1) accumulate_adds(1)[of t m])
  next
    case 2 show ?case by (simp add: Cons.IH(2) accumulate_adds(2)[of t m])
  next
    case 3 show ?case by (simp add: Cons.IH(3) accumulate_adds(3)[of t m])
  next
    case 4 show ?case by (simp add: Cons.IH(4) accumulate_adds(4)[of t m])
  next
    case 5 show ?case by (simp add: Cons.IH(5) accumulate_adds(5)[of t m])
  }
qed

lemma sum_list_partition:
  fixes f :: "'a \<Rightarrow> int"
  assumes "mset whole = mset sub1 + mset sub2"
  shows "(\<Sum>m\<leftarrow>whole. f m) = (\<Sum>m\<leftarrow>sub1. f m) + (\<Sum>m\<leftarrow>sub2. f m)"
proof -
  have "(\<Sum>m\<leftarrow>whole. f m) = sum_mset (image_mset f (mset whole))"
    by (metis mset_map sum_mset_sum_list)
  also have "\<dots> = sum_mset (image_mset f (mset sub1)) + sum_mset (image_mset f (mset sub2))"
    by (simp add: assms)
  also have "\<dots> = (\<Sum>m\<leftarrow>sub1. f m) + (\<Sum>m\<leftarrow>sub2. f m)"
    by (metis mset_map sum_mset_sum_list)
  finally show ?thesis .
qed

lemma length_partition:
  assumes "mset whole = mset sub1 + mset sub2"
  shows "length whole = length sub1 + length sub2"
proof -
  have "size (mset whole) = size (mset sub1) + size (mset sub2)"
    by (simp add: assms)
  then show ?thesis by simp
qed

lemma resources_as_sums:
  "r_powerConsumption (calculateTotalResources ms) =
     (\<Sum>m\<leftarrow>ms. totalPowerConsumption (accumulate zero_totals m))"
  "r_powerGeneration (calculateTotalResources ms) =
     (\<Sum>m\<leftarrow>ms. totalPowerGeneration (accumulate zero_totals m))"
  "r_oxygenProduction (calculateTotalResources ms) =
     (\<Sum>m\<leftarrow>ms. totalOxygenProduction (accumulate zero_totals m))"
  "r_oxygenConsumption (calculateTotalResources ms) =
     (\<Sum>m\<leftarrow>ms. totalOxygenConsumption (accumulate zero_totals m))"
  "r_crewCapacity (calculateTotalResources ms) =
     (\<Sum>m\<leftarrow>ms. totalCrewCapacity (accumulate zero_totals m))"
  by (simp_all add: calculateTotalResources_def Let_def foldl_accumulate_sums zero_totals_def)

lemma balances:
  "r_powerBalance (calculateTotalResources ms) =
     r_powerGeneration (calculateTotalResources ms) - r_powerConsumption (calculateTotalResources ms)"
  "r_oxygenBalance (calculateTotalResources ms) =
     r_oxygenProduction (calculateTotalResources ms) - r_oxygenConsumption (calculateTotalResources ms)"
  by (simp_all add: calculateTotalResources_def Let_def)

text \<open>
  Claim C8, as the code has it. Whenever the modules of a list are exactly those of two
  other lists taken together (any partition of the list into two sublists), the aggregate
  of the whole list has, in each whole-number field (\<open>powerConsumption\<close>,
  \<open>powerGeneration\<close>, \<open>oxygenProduction\<close>, \<open>oxygenConsumption\<close>, \<open>crewCapacity\<close>, the module
  count, and the two balances), the sum of the two aggregates. \<open>totalArea\<close> is a sum of
  doubles that are not whole numbers and is left out.
\<close>

theorem aggregate_additive:
  assumes "mset whole = mset sub1 + mset sub2"
  shows "r_powerConsumption (calculateTotalResources whole) =
           r_powerConsumption (calculateTotalResources sub1) +
           r_powerConsumption (calculateTotalResources sub2) \<and>
         r_powerGeneration (calculateTotalResources whole) =
           r_powerGeneration (calculateTotalResources sub1) +
           r_powerGeneration (calculateTotalResources sub2) \<and>
         r_oxygenProduction (calculateTotalResources whole) =
           r_oxygenProduction (calculateTotalResources sub1) +
           r_oxygenProduction (calculateTotalResources sub2) \<and>
         r_oxygenConsumption (calculateTotalResources whole) =
           r_oxygenConsumption (calculateTotalResources sub1) +
           r_oxygenConsumption (calculateTotalResources sub2) \<and>
         r_crewCapacity (calculateTotalResources whole) =
           r_crewCapacity (calculateTotalResources sub1) +
           r_crewCapacity (calculateTotalResources sub2) \<and>
         r_modules (calculateTotalResources whole) =
           r_modules (calculateTotalResources sub1) +
           r_modules (calculateTotalResources sub2) \<and>
         r_powerBalance (calculateTotalResources whole) =
           r_powerBalance (calculateTotalResources sub1) +
           r_powerBalance (calculateTotalResources sub2) \<and>
         r_oxygenBalance (calculateTotalResources whole) =
           r_oxygenBalance (calculateTotalResources sub1) +
           r_oxygenBalance (calculateTotalResources sub2)"
proof -
  have pc: "r_powerConsumption (calculateTotalResources whole) =
           r_powerConsumption (calculateTotalResources sub1) +
           r_powerConsumption (calculateTotalResources sub2)"
    unfolding resources_as_sums using assms by (rule sum_list_partition)
  have pg: "r_powerGeneration (calculateTotalResources whole) =
           r_powerGeneration (calculateTotalResources sub1) +
           r_powerGeneration (calculateTotalResources sub2)"
    unfolding resources_as_sums using assms by (rule sum_list_partition)
  have op: "r_oxygenProduction (calculateTotalResources whole) =
           r_oxygenProduction (calculateTotalResources sub1) +
           r_oxygenProduction (calculateTotalResources sub2)"
    unfolding resources_as_sums using assms by (rule sum_list_partition)
  have oc: "r_oxygenConsumption (calculateTotalResources whole) =
           r_oxygenConsumption (calculateTotalResources sub1) +
           r_oxygenConsumption (calculateTotalResources sub2)"
    unfolding resources_as_sums using assms by (rule sum_list_partition)
  have cc: "r_crewCapacity (calculateTotalResources whole) =
           r_crewCapacity (calculateTotalResources sub1) +
           r_crewCapacity (calculateTotalResources sub2)"
    unfolding resources_as_sums using assms by (rule sum_list_partition)
  have n: "r_modules (calculateTotalResources whole) =
           r_modules (calculateTotalResources sub1) +
           r_modules (calculateTotalResources sub2)"
    using length_partition[OF assms] by (simp add: calculateTotalResources_def Let_def)
  have pb: "r_powerBalance (calculateTotalResources whole) =
           r_powerBalance (calculateTotalResources sub1) +
           r_powerBalance (calculateTotalResources sub2)"
    unfolding balances using pc pg by simp
  have ob: "r_oxygenBalance (calculateTotalResources whole) =
           r_oxygenBalance (calculateTotalResources sub1) +
           r_oxygenBalance (calculateTotalResources sub2)"
    unfolding balances using op oc by simp
  show ?thesis using pc pg op oc cc n pb ob by blast
qed

lemma resources_power_airlock:
  "r_powerConsumption (calculateTotalResources [of_type ''power'']) = 0"
  "r_powerConsumption (calculateTotalResources [of_type ''airlock'']) = 10"
  "r_powerGeneration (calculateTotalResources [of_type ''power'']) = 50"
  "r_powerGeneration (calculateTotalResources [of_type ''airlock'']) = 0"
  by (simp_all add: calculateTotalResources_def Let_def accumulate_def of_type_def
      getModuleType_power getModuleType_airlock zero_totals_def p_power_def p_airlock_def
      or0_def)

theorem aggregate_additive_witness:
  "mset [of_type ''airlock'', of_type ''power'', of_type ''airlock''] =
     mset [of_type ''airlock'', of_type ''airlock''] + mset [of_type ''power''] \<and>
   r_powerConsumption
     (calculateTotalResources [of_type ''airlock'', of_type ''power'', of_type ''airlock'']) =
     r_powerConsumption (calculateTotalResources [of_type ''airlock'', of_type ''airlock'']) + 0 \<and>
   r_powerGeneration
     (calculateTotalResources [of_type ''airlock'', of_type ''power'', of_type ''airlock'']) =
     r_powerGeneration (calculateTotalResources [of_type ''airlock'', of_type ''airlock'']) + 50 \<and>
   r_modules
     (calculateTotalResources [of_type ''airlock'', of_type ''power'', of_type ''airlock'']) = 3"
proof -
  have part: "mset [of_type ''airlock'', of_type ''power'', of_type ''airlock''] =
     mset [of_type ''airlock'', of_type ''airlock''] + mset [of_type ''power'']"
    by simp
  have n: "r_modules (calculateTotalResources [of_type ''airlock'', of_type ''airlock'']) = 2"
    "r_modules (calculateTotalResources [of_type ''power'']) = 1"
    by (simp_all add: calculateTotalResources_def Let_def)
  show ?thesis
    using part n aggregate_additive[OF part] resources_power_airlock by simp
qed

lemma area_of_three:
  "r_totalArea (calculateTotalResources
      [of_type ''living-quarters'', of_type ''airlock'', of_type ''airlock'']) =
     fadd (fadd (fadd 0 (round53 12)) (round53 (64 / 10))) (round53 (64 / 10))"
  "r_totalArea (calculateTotalResources [of_type ''living-quarters'']) = fadd 0 (round53 12)"
  "r_totalArea (calculateTotalResources [of_type ''airlock'', of_type ''airlock'']) =
     fadd (fadd 0 (round53 (64 / 10))) (round53 (64 / 10))"
  by (simp_all add: calculateTotalResources_def Let_def accumulate_def of_type_def
      getModuleType_living_quarters getModuleType_airlock zero_totals_def
      p_living_quarters_def p_airlock_def)

lemma doubles_not_associative:
  "fadd (fadd (fadd 0 (round53 12)) (round53 (64 / 10))) (round53 (64 / 10)) =
     1745144855606067 / 70368744177664"
  "fadd (fadd 0 (round53 12)) (fadd (fadd 0 (round53 (64 / 10))) (round53 (64 / 10))) =
     6980579422424269 / 281474976710656"
  "fadd 0 (round53 12) + fadd (fadd 0 (round53 (64 / 10))) (round53 (64 / 10)) =
     6980579422424269 / 281474976710656"
  by code_simp+

text \<open>
  The claim as stated fails for \<open>totalArea\<close>: a living-quarters module followed by two
  airlocks has the area \<open>(12 + 6.4) + 6.4 = 24.799999999999997\<close>, while the areas of the
  two parts add to \<open>12 + (6.4 + 6.4) = 24.8\<close>, whether the two are added as doubles or
  exactly.
\<close>

theorem total_area_not_additive:
  "r_totalArea (calculateTotalResources
      ([of_type ''living-quarters''] @ [of_type ''airlock'', of_type ''airlock''])) \<noteq>
     fadd (r_totalArea (calculateTotalResources [of_type ''living-quarters'']))
          (r_totalArea (calculateTotalResources [of_type ''airlock'', of_type ''airlock''])) \<and>
   r_totalArea (calculateTotalResources
      ([of_type ''living-quarters''] @ [of_type ''airlock'', of_type ''airlock''])) \<noteq>
     r_totalArea (calculateTotalResources [of_type ''living-quarters'']) +
     r_totalArea (calculateTotalResources [of_type ''airlock'', of_type ''airlock''])"
  unfolding append.simps area_of_three doubles_not_associative by simp

end
